theory Spec2Isabelle
  imports
    Main
    "HOL-Library.Char_ord"
    "HOL-Library.List_Lexorder"
    "HOL-Library.Multiset"
    "HOL-Library.AList"
    "HOL-Library.Word"
begin

section \<open>Go strings\<close>

text \<open>
  A Go string is a sequence of bytes, here a \<^typ>\<open>string\<close> (\<^typ>\<open>char list\<close>, a
  \<^typ>\<open>char\<close> being one byte). Go compares strings byte by byte, which is the
  lexicographic order on \<^typ>\<open>char list\<close>, so \<open>sort.Strings\<close> is \<^const>\<open>sort\<close>
  (a list has only one sorted permutation in a linear order, whatever algorithm finds it).
\<close>

text \<open>
  \<open>unicode.IsSpace\<close>: the UTF-8 encodings of the code points with the White_Space
  property: U+0009..U+000D, U+0020, U+0085, U+00A0, U+1680, U+2000..U+200A, U+2028,
  U+2029, U+202F, U+205F, U+3000.
\<close>
definition spaceRunes :: "string list" where
  "spaceRunes =
     [[CHR 0x09], [CHR 0x0A], [CHR 0x0B], [CHR 0x0C], [CHR 0x0D], [CHR 0x20],
      [CHR 0xC2, CHR 0x85], [CHR 0xC2, CHR 0xA0],
      [CHR 0xE1, CHR 0x9A, CHR 0x80],
      [CHR 0xE2, CHR 0x80, CHR 0x80], [CHR 0xE2, CHR 0x80, CHR 0x81],
      [CHR 0xE2, CHR 0x80, CHR 0x82], [CHR 0xE2, CHR 0x80, CHR 0x83],
      [CHR 0xE2, CHR 0x80, CHR 0x84], [CHR 0xE2, CHR 0x80, CHR 0x85],
      [CHR 0xE2, CHR 0x80, CHR 0x86], [CHR 0xE2, CHR 0x80, CHR 0x87],
      [CHR 0xE2, CHR 0x80, CHR 0x88], [CHR 0xE2, CHR 0x80, CHR 0x89],
      [CHR 0xE2, CHR 0x80, CHR 0x8A],
      [CHR 0xE2, CHR 0x80, CHR 0xA8], [CHR 0xE2, CHR 0x80, CHR 0xA9],
      [CHR 0xE2, CHR 0x80, CHR 0xAF],
      [CHR 0xE2, CHR 0x81, CHR 0x9F],
      [CHR 0xE3, CHR 0x80, CHR 0x80]]"

text \<open>The width in bytes of the white-space rune a string starts with, 0 when it starts with none.\<close>
definition leadingSpace :: "string \<Rightarrow> nat" where
  "leadingSpace s =
     (case find (\<lambda>e. take (length e) s = e) spaceRunes of
        None \<Rightarrow> 0
      | Some e \<Rightarrow> length e)"

text \<open>The width in bytes of the white-space rune a string ends with, 0 when it ends with none.\<close>
definition trailingSpace :: "string \<Rightarrow> nat" where
  "trailingSpace s =
     (case find (\<lambda>e. drop (length s - length e) s = e) spaceRunes of
        None \<Rightarrow> 0
      | Some e \<Rightarrow> length e)"

text \<open>
  \<open>strings.TrimLeftFunc(s, unicode.IsSpace)\<close>: drop leading white-space runes. The
  width of the leading rune is never more than the length of the string; the second test
  only makes the termination evident. The same holds of \<open>TrimRightSpace\<close> below.
\<close>
function TrimLeftSpace :: "string \<Rightarrow> string" where
  "TrimLeftSpace s =
     (if leadingSpace s = 0 \<or> length s < leadingSpace s then s
      else TrimLeftSpace (drop (leadingSpace s) s))"
  by pat_completeness auto
termination
  by (relation "measure length") auto

text \<open>\<open>strings.TrimRightFunc(s, unicode.IsSpace)\<close>: drop trailing white-space runes.\<close>
function TrimRightSpace :: "string \<Rightarrow> string" where
  "TrimRightSpace s =
     (if trailingSpace s = 0 \<or> length s < trailingSpace s then s
      else TrimRightSpace (take (length s - trailingSpace s) s))"
  by pat_completeness auto
termination
  by (relation "measure length") auto

declare TrimLeftSpace.simps [simp del]
declare TrimRightSpace.simps [simp del]

text \<open>
  \<open>strings.TrimSpace\<close>: the string without its leading and trailing white space. Go's
  fast path over ASCII bytes and its fallback to \<open>TrimFunc\<close> compute this same slice.
\<close>
definition TrimSpace :: "string \<Rightarrow> string" where
  "TrimSpace s = TrimRightSpace (TrimLeftSpace s)"

text \<open>
  \<open>strings.Split(s, sep)\<close> for a separator of one byte: the pieces between the
  separators, \<open>Count(s, sep) + 1\<close> of them (the empty string gives one empty piece).
  The recursive call never returns the empty list; that branch only makes the
  definition total.
\<close>
fun Split :: "string \<Rightarrow> char \<Rightarrow> string list" where
  "Split [] sep = [[]]"
| "Split (c # cs) sep =
     (if c = sep then [] # Split cs sep
      else (case Split cs sep of
              [] \<Rightarrow> [[c]]
            | p # ps \<Rightarrow> (c # p) # ps))"

text \<open>
  \<open>strings.SplitN(s, sep, 2)\<close> for a separator of one byte: the string itself when it
  has no separator, otherwise the part before the first separator and the whole rest.
\<close>
definition SplitN2 :: "string \<Rightarrow> char \<Rightarrow> string list" where
  "SplitN2 s sep =
     (if sep \<in> set s
      then [takeWhile (\<lambda>c. c \<noteq> sep) s, tl (dropWhile (\<lambda>c. c \<noteq> sep) s)]
      else [s])"

text \<open>\<open>strings.Join(elems, sep)\<close>.\<close>
fun Join :: "string list \<Rightarrow> string \<Rightarrow> string" where
  "Join [] sep = []"
| "Join [x] sep = x"
| "Join (x # y # ys) sep = x @ sep @ Join (y # ys) sep"

text \<open>The decimal digits of a natural number, most significant first.\<close>
function decimal :: "nat \<Rightarrow> string" where
  "decimal n =
     (if n < 10 then [''0123456789'' ! n]
      else decimal (n div 10) @ [''0123456789'' ! (n mod 10)])"
  by pat_completeness auto
termination
  by (relation "measure id") auto

declare decimal.simps [simp del]

text \<open>\<open>strconv.FormatInt(i, 10)\<close> of an \<open>int64\<close>.\<close>
definition FormatInt :: "64 word \<Rightarrow> string" where
  "FormatInt i =
     (if sint i < 0 then CHR ''-'' # decimal (nat (- sint i))
      else decimal (nat (sint i)))"

text \<open>\<open>fmt.Sprintf("%s=%s", k, v)\<close>.\<close>
definition Sprintf_kv :: "string \<Rightarrow> string \<Rightarrow> string" where
  "Sprintf_kv k v = k @ ''='' @ v"


section \<open>Errors\<close>

text \<open>
  One constructor for each error the code builds with \<open>fmt.Errorf\<close> (its arguments
  are the values the message is formatted from, a wrapped error last), and two for the
  errors its collaborators return: the API server's not-found error and any other.
\<close>
datatype error =
    ErrNotFound
  | ErrExternal string
  | ErrInfrastructureRefNameEmpty
  | ErrExpectedAWSMachineTemplate string
  | ErrFetchAWSMachineTemplate string string error
  | ErrTemplateNil
  | ErrInstanceTypeEmpty
  | ErrFetchCluster string string error
  | ErrNilInfrastructureRef string
  | ErrEmptyInfrastructureRefName string
  | ErrFetchAWSCluster string string error
  | ErrEmptyRegion string
  | ErrRegionUndeterminable string
  | ErrCreatingAWSClient error
  | ErrRegionNotValid string
  | ErrRegionNotOptedIn string
  | ErrUnknownInstanceType string
  | ErrBulkFetch error


section \<open>The objects the controller reads\<close>

text \<open>
  The fields of the Kubernetes objects that the code reads. A Go map that may be
  \<open>nil\<close> is an optional map; a pointer that the code tests against \<open>nil\<close> is an
  option.
\<close>

record ObjectReference =
  ref_Kind :: string
  ref_Name :: string
  ref_Namespace :: string

text \<open>
  \<open>clusterv1.MachineDeployment\<close>: \<open>md_ClusterName\<close> is \<open>Spec.ClusterName\<close> and
  \<open>md_InfrastructureRef\<close> is \<open>Spec.Template.Spec.InfrastructureRef\<close>.
\<close>
record MachineDeployment =
  md_Name :: string
  md_Namespace :: string
  md_Annotations :: "(string \<rightharpoonup> string) option"
  md_ClusterName :: string
  md_InfrastructureRef :: ObjectReference

text \<open>\<open>infrav1.AWSMachineTemplate\<close>: \<open>amt_InstanceType\<close> is \<open>Spec.Template.Spec.InstanceType\<close>.\<close>
record AWSMachineTemplate =
  amt_Name :: string
  amt_Namespace :: string
  amt_InstanceType :: string

text \<open>\<open>clusterv1.Cluster\<close>: \<open>cl_InfrastructureRef\<close> is the pointer \<open>Spec.InfrastructureRef\<close>.\<close>
record Cluster =
  cl_Name :: string
  cl_Namespace :: string
  cl_InfrastructureRef :: "ObjectReference option"

text \<open>\<open>infrav1.AWSCluster\<close>: \<open>ac_Region\<close> is \<open>Spec.Region\<close>.\<close>
record AWSCluster =
  ac_Name :: string
  ac_Namespace :: string
  ac_Region :: string

record ObjectKey =
  key_Name :: string
  key_Namespace :: string

text \<open>
  \<open>client.Client\<close>, of which the code calls \<open>Get\<close> on three kinds of object: one
  lookup for each kind, returning the object or the error of the API server.
\<close>
record Client =
  GetAWSMachineTemplate :: "ObjectKey \<Rightarrow> error + AWSMachineTemplate"
  GetCluster :: "ObjectKey \<Rightarrow> error + Cluster"
  GetAWSCluster :: "ObjectKey \<Rightarrow> error + AWSCluster"


section \<open>Package utils\<close>

definition RegionAnnotation :: string where
  "RegionAnnotation = ''capa.infrastructure.cluster.x-k8s.io/region''"

text \<open>Reading a key of a Go map that may be \<open>nil\<close>: a \<open>nil\<close> map has no key.\<close>
definition lookupAnnotation :: "(string \<rightharpoonup> string) option \<Rightarrow> string \<Rightarrow> string option" where
  "lookupAnnotation anns k = (case anns of None \<Rightarrow> None | Some m \<Rightarrow> m k)"

definition ResolveAWSMachineTemplate ::
  "Client \<Rightarrow> MachineDeployment \<Rightarrow> error + AWSMachineTemplate" where
  "ResolveAWSMachineTemplate c machineDeployment =
     (let infraRef = md_InfrastructureRef machineDeployment in
      if ref_Name infraRef = [] then Inl ErrInfrastructureRefNameEmpty
      else if ref_Kind infraRef \<noteq> ''AWSMachineTemplate''
      then Inl (ErrExpectedAWSMachineTemplate (ref_Kind infraRef))
      else
        let key = \<lparr>key_Name = ref_Name infraRef,
                   key_Namespace =
                     (if ref_Namespace infraRef = [] then md_Namespace machineDeployment
                      else ref_Namespace infraRef)\<rparr>
        in (case GetAWSMachineTemplate c key of
              Inl err \<Rightarrow> Inl (ErrFetchAWSMachineTemplate (key_Namespace key) (key_Name key) err)
            | Inr template \<Rightarrow> Inr template))"

definition ExtractInstanceType :: "AWSMachineTemplate option \<Rightarrow> error + string" where
  "ExtractInstanceType template =
     (case template of
        None \<Rightarrow> Inl ErrTemplateNil
      | Some t \<Rightarrow>
          if amt_InstanceType t = [] then Inl ErrInstanceTypeEmpty
          else Inr (amt_InstanceType t))"

definition getRegionFromAWSCluster :: "Client \<Rightarrow> MachineDeployment \<Rightarrow> error + string" where
  "getRegionFromAWSCluster c machineDeployment =
     (let clusterKey = \<lparr>key_Name = md_ClusterName machineDeployment,
                         key_Namespace = md_Namespace machineDeployment\<rparr>
      in case GetCluster c clusterKey of
           Inl err \<Rightarrow> Inl (ErrFetchCluster (key_Namespace clusterKey) (key_Name clusterKey) err)
         | Inr cluster \<Rightarrow>
             (case cl_InfrastructureRef cluster of
                None \<Rightarrow> Inl (ErrNilInfrastructureRef (cl_Name cluster))
              | Some infraRef \<Rightarrow>
                  if ref_Name infraRef = []
                  then Inl (ErrEmptyInfrastructureRefName (cl_Name cluster))
                  else
                    let awsClusterKey =
                          \<lparr>key_Name = ref_Name infraRef,
                           key_Namespace =
                             (if ref_Namespace infraRef = [] then cl_Namespace cluster
                              else ref_Namespace infraRef)\<rparr>
                    in (case GetAWSCluster c awsClusterKey of
                          Inl err \<Rightarrow>
                            Inl (ErrFetchAWSCluster (key_Namespace awsClusterKey)
                                   (key_Name awsClusterKey) err)
                        | Inr awsCluster \<Rightarrow>
                            if ac_Region awsCluster = []
                            then Inl (ErrEmptyRegion (ac_Name awsCluster))
                            else Inr (ac_Region awsCluster))))"

text \<open>The fallback of \<open>ResolveRegion\<close>: the region annotation of the deployment.\<close>
definition regionFromAnnotation :: "MachineDeployment \<Rightarrow> error + string" where
  "regionFromAnnotation machineDeployment =
     (case lookupAnnotation (md_Annotations machineDeployment) RegionAnnotation of
        Some region \<Rightarrow>
          if region \<noteq> [] then Inr region
          else Inl (ErrRegionUndeterminable RegionAnnotation)
      | None \<Rightarrow> Inl (ErrRegionUndeterminable RegionAnnotation))"

definition ResolveRegion :: "Client \<Rightarrow> MachineDeployment \<Rightarrow> error + string" where
  "ResolveRegion c machineDeployment =
     (if md_ClusterName machineDeployment \<noteq> []
      then (case getRegionFromAWSCluster c machineDeployment of
              Inr region \<Rightarrow> Inr region
            | Inl err \<Rightarrow> regionFromAnnotation machineDeployment)
      else regionFromAnnotation machineDeployment)"


section \<open>Instance-type descriptors\<close>

text \<open>
  Modelled from the spec: the type \<open>normalizedArch\<close> and its constants
  \<open>ArchitectureAmd64\<close> and \<open>ArchitectureArm64\<close>, which the tests name and whose
  declaration is not among the sources. The spec has it as the enumeration
  \<open>{amd64, arm64}\<close>; the tests expect the label values \<open>amd64\<close> and \<open>arm64\<close>.
\<close>
datatype normalizedArch = ArchitectureAmd64 | ArchitectureArm64

text \<open>
  Modelled from the spec: the strings of the two constants, which
  \<open>string(instanceTypeInfo.CPUArchitecture)\<close> gives and the tests expect as the values
  of the architecture label.
\<close>
fun archString :: "normalizedArch \<Rightarrow> string" where
  "archString ArchitectureAmd64 = ''amd64''"
| "archString ArchitectureArm64 = ''arm64''"

text \<open>
  Modelled from the spec: the type \<open>InstanceTypeInfo\<close>, whose declaration is not among the
  sources. These are the fields \<open>reconcile\<close> reads; it formats the first three with
  \<open>strconv.FormatInt\<close>, so they are \<open>int64\<close>.
\<close>
record InstanceTypeInfo =
  VCPU :: "64 word"
  MemoryMb :: "64 word"
  GPU :: "64 word"
  CPUArchitecture :: normalizedArch

text \<open>
  Modelled from the spec: \<open>normalizeArchitecture\<close>, which the test
  \<open>TestNormalizeArchitecture\<close> calls and whose source is not among the sources. The spec:
  map the known 64-bit x86 identifier (\<open>ec2.ArchitectureTypeX8664\<close>, the string
  \<open>x86_64\<close>) to \<open>amd64\<close> and the known arm64 identifier (\<open>ec2.ArchitectureTypeArm64\<close>,
  the string \<open>arm64\<close>) to \<open>arm64\<close>; anything else normalizes to \<open>amd64\<close>.
\<close>
definition normalizeArchitecture :: "string \<Rightarrow> normalizedArch" where
  "normalizeArchitecture architecture =
     (if architecture = ''x86_64'' then ArchitectureAmd64
      else if architecture = ''arm64'' then ArchitectureArm64
      else ArchitectureAmd64)"


section \<open>Package controller\<close>

definition cpuKey :: string where
  "cpuKey = ''machine.openshift.io/vCPU''"

definition memoryKey :: string where
  "memoryKey = ''machine.openshift.io/memoryMb''"

definition gpuKey :: string where
  "gpuKey = ''machine.openshift.io/GPU''"

definition labelsKey :: string where
  "labelsKey = ''capacity.cluster-autoscaler.kubernetes.io/labels''"

definition archLabelKey :: string where
  "archLabelKey = ''kubernetes.io/arch''"

text \<open>
  The map \<open>labelsMap\<close> of \<open>reconcile\<close> is an association list with distinct keys:
  writing a key replaces its value where it stands, or adds the pair. The order of the
  list stands for the order in which \<open>range\<close> visits the map, which Go does not fix.
\<close>
type_synonym labelsMap = "(string \<times> string) list"

text \<open>The body of the loop over the comma-separated labels.\<close>
definition parseLabel :: "string \<Rightarrow> labelsMap \<Rightarrow> labelsMap" where
  "parseLabel label labelsMap =
     (let parts = SplitN2 (TrimSpace label) CHR ''='' in
      if length parts = 2 then AList.update (parts ! 0) (parts ! 1) labelsMap
      else labelsMap)"

definition parseLabels :: "string \<Rightarrow> labelsMap" where
  "parseLabels existingLabels = fold parseLabel (Split existingLabels CHR '','') []"

text \<open>The map after the architecture label is written.\<close>
definition updatedLabels :: "string option \<Rightarrow> InstanceTypeInfo \<Rightarrow> labelsMap" where
  "updatedLabels existing instanceTypeInfo =
     AList.update archLabelKey (archString (CPUArchitecture instanceTypeInfo))
       (case existing of
          None \<Rightarrow> []
        | Some existingLabels \<Rightarrow>
            if existingLabels \<noteq> [] then parseLabels existingLabels else [])"

text \<open>The slice \<open>labels\<close> after \<open>sort.Strings\<close>, for the pairs in the order \<open>range\<close> gave them.\<close>
definition sortedLabels :: "labelsMap \<Rightarrow> string list" where
  "sortedLabels labelsMap = sort (map (\<lambda>(k, v). Sprintf_kv k v) labelsMap)"

text \<open>
  The annotation-writing step of \<open>reconcile\<close> (from \<open>// Set annotations\<close> to the last
  assignment): it runs once \<open>GetInstanceType\<close> has returned a descriptor.
\<close>
definition setAnnotations :: "MachineDeployment \<Rightarrow> InstanceTypeInfo \<Rightarrow> MachineDeployment" where
  "setAnnotations machineDeployment instanceTypeInfo =
     (let annotations0 =
            (case md_Annotations machineDeployment of
               None \<Rightarrow> Map.empty
             | Some m \<Rightarrow> m);
          annotations1 =
            annotations0
              (cpuKey \<mapsto> FormatInt (VCPU instanceTypeInfo),
               memoryKey \<mapsto> FormatInt (MemoryMb instanceTypeInfo),
               gpuKey \<mapsto> FormatInt (GPU instanceTypeInfo));
          labelsMap = updatedLabels (annotations1 labelsKey) instanceTypeInfo;
          labels = sortedLabels labelsMap
      in machineDeployment
           \<lparr>md_Annotations := Some (annotations1(labelsKey \<mapsto> Join labels '',''))\<rparr>)"

text \<open>\<open>ctrl.Result\<close>; the code only ever returns its zero value.\<close>
record ctrl_Result =
  Requeue :: bool
  RequeueAfter :: int

definition emptyResult :: ctrl_Result where
  "emptyResult = \<lparr>Requeue = False, RequeueAfter = 0\<rparr>"

text \<open>
  The fields of \<open>Reconciler\<close> that \<open>reconcile\<close> uses. \<open>AwsClientBuilder\<close> is a function
  value and \<open>InstanceTypesCache\<close> an interface with the one method \<open>GetInstanceType\<close>;
  \<open>'c\<close> is the type of the AWS client handed from the one to the other.
\<close>
record 'c Reconciler =
  r_Client :: Client
  r_AwsClientBuilder :: "Client \<Rightarrow> string \<Rightarrow> string \<Rightarrow> string \<Rightarrow> error + 'c"
  r_GetInstanceType :: "'c \<Rightarrow> string \<Rightarrow> string \<Rightarrow> error + InstanceTypeInfo"

text \<open>
  What a call of \<open>reconcile\<close> leaves: the returned pair, the deployment (the code mutates
  it through the pointer) and the events it recorded (type and reason).
\<close>
record reconcileOutcome =
  out_Result :: ctrl_Result
  out_err :: "error option"
  out_machineDeployment :: MachineDeployment
  out_events :: "(string \<times> string) list"

definition failedUpdate :: "(string \<times> string) list" where
  "failedUpdate = [(''Warning'', ''FailedUpdate'')]"

definition reconcile :: "'c Reconciler \<Rightarrow> MachineDeployment \<Rightarrow> reconcileOutcome" where
  "reconcile r machineDeployment =
     (case ResolveAWSMachineTemplate (r_Client r) machineDeployment of
        Inl err \<Rightarrow>
          \<lparr>out_Result = emptyResult, out_err = Some err,
           out_machineDeployment = machineDeployment, out_events = failedUpdate\<rparr>
      | Inr awsMachineTemplate \<Rightarrow>
     (case ExtractInstanceType (Some awsMachineTemplate) of
        Inl err \<Rightarrow>
          \<lparr>out_Result = emptyResult, out_err = Some err,
           out_machineDeployment = machineDeployment, out_events = failedUpdate\<rparr>
      | Inr instanceType \<Rightarrow>
     (case ResolveRegion (r_Client r) machineDeployment of
        Inl err \<Rightarrow>
          \<lparr>out_Result = emptyResult, out_err = Some err,
           out_machineDeployment = machineDeployment, out_events = failedUpdate\<rparr>
      | Inr region \<Rightarrow>
     (case r_AwsClientBuilder r (r_Client r) [] (md_Namespace machineDeployment) region of
        Inl err \<Rightarrow>
          \<lparr>out_Result = emptyResult, out_err = Some (ErrCreatingAWSClient err),
           out_machineDeployment = machineDeployment, out_events = []\<rparr>
      | Inr awsClient \<Rightarrow>
     (case r_GetInstanceType r awsClient region instanceType of
        Inl err \<Rightarrow>
          \<lparr>out_Result = emptyResult, out_err = None,
           out_machineDeployment = machineDeployment, out_events = failedUpdate\<rparr>
      | Inr instanceTypeInfo \<Rightarrow>
          \<lparr>out_Result = emptyResult, out_err = None,
           out_machineDeployment = setAnnotations machineDeployment instanceTypeInfo,
           out_events = []\<rparr>)))))"


section \<open>Package client\<close>

subsection \<open>Region validation\<close>

text \<open>
  \<open>ec2.Region\<close> and \<open>ec2.DescribeRegionsOutput\<close>. The SDK declares every field as a
  pointer, and the list of regions as a list of pointers; the code tests only the
  latter against \<open>nil\<close>, and dereferencing a \<open>nil\<close> field panics.
\<close>
record Region =
  RegionName :: "string option"
  OptInStatus :: "string option"

record DescribeRegionsOutput =
  Regions :: "Region option list"

datatype 'a outcome = NilPointerPanic | Returns 'a

text \<open>The loop of \<open>validateRegion\<close>: the first entry with the name, \<open>nil\<close> entries skipped.\<close>
fun findRegion :: "Region option list \<Rightarrow> string \<Rightarrow> Region option outcome" where
  "findRegion [] region = Returns None"
| "findRegion (None # rs) region = findRegion rs region"
| "findRegion (Some currentRegion # rs) region =
     (case RegionName currentRegion of
        None \<Rightarrow> NilPointerPanic
      | Some name \<Rightarrow>
          if name = region then Returns (Some currentRegion)
          else findRegion rs region)"

definition validateRegion :: "DescribeRegionsOutput \<Rightarrow> string \<Rightarrow> (error + Region) outcome" where
  "validateRegion describeRegionsOutput region =
     (case findRegion (Regions describeRegionsOutput) region of
        NilPointerPanic \<Rightarrow> NilPointerPanic
      | Returns None \<Rightarrow> Returns (Inl (ErrRegionNotValid region))
      | Returns (Some regionData) \<Rightarrow>
          (case OptInStatus regionData of
             None \<Rightarrow> NilPointerPanic
           | Some status \<Rightarrow>
               if status = ''not-opted-in''
               then Returns (Inl (ErrRegionNotOptedIn region))
               else Returns (Inr regionData)))"

subsection \<open>Sessions\<close>

text \<open>\<open>credentials.Value\<close>, of which the code reads the access key.\<close>
record Value =
  AccessKeyID :: string

text \<open>
  \<open>session.Session\<close>: the region of its configuration (a pointer to a string), what
  \<open>Config.Credentials.Get()\<close> returns, and the names of the handlers pushed on
  \<open>Handlers.Build\<close>.
\<close>
record Session =
  Config_Region :: "string option"
  Config_Credentials :: "error + Value"
  Handlers_Build :: "string list"





subsection \<open>The region cache\<close>

text \<open>
  Instants and durations are integers, in nanoseconds; \<open>time.Since(t)\<close> at the instant
  \<open>now\<close> is \<open>now - t\<close> (Go saturates the difference at about 292 years, far beyond the
  30 minutes it is compared with).
\<close>
definition awsRegionsCacheExpirationDuration :: int where
  "awsRegionsCacheExpirationDuration = 30 * (60 * 1000000000)"

record DescribeRegionsData =
  drd_err :: "error option"
  drd_describeRegionsOutput :: "DescribeRegionsOutput option"
  drd_lastUpdated :: int

text \<open>
  The zero value that reading an absent key of the Go map gives; the zero
  \<open>time.Time\<close> is the first instant of year 1, here in nanoseconds before 1970.
\<close>
definition zeroDescribeRegionsData :: DescribeRegionsData where
  "zeroDescribeRegionsData =
     \<lparr>drd_err = None, drd_describeRegionsOutput = None,
      drd_lastUpdated = - 62135596800 * 1000000000\<rparr>"

text \<open>The field \<open>data\<close> of \<open>regionCache\<close>, keyed by access key.\<close>
type_synonym regionCache = "string \<rightharpoonup> DescribeRegionsData"

definition NewRegionCache :: regionCache where
  "NewRegionCache = Map.empty"

text \<open>
  \<open>GetCachedDescribeRegions\<close>, run under the mutex. \<open>DescribeRegions\<close> is the call
  \<open>ec2.New(awsSession).DescribeRegions\<close> on the session as it is at the call,
  \<open>tSince\<close> the instant at which \<open>time.Since\<close> reads the clock and \<open>tNow\<close> the one
  \<open>time.Now()\<close> returns. The result is the returned pair, the cache and the session
  after the call.
\<close>
definition GetCachedDescribeRegions ::
  "(Session \<Rightarrow> error + DescribeRegionsOutput) \<Rightarrow> int \<Rightarrow> int \<Rightarrow> regionCache \<Rightarrow> Session \<Rightarrow>
     (error + DescribeRegionsOutput) \<times> regionCache \<times> Session" where
  "GetCachedDescribeRegions DescribeRegions tSince tNow c awsSession =
     (case Config_Credentials awsSession of
        Inl err \<Rightarrow> (Inl err, c, awsSession)
      | Inr creds \<Rightarrow>
          let regionData =
                (case c (AccessKeyID creds) of
                   None \<Rightarrow> zeroDescribeRegionsData
                 | Some d \<Rightarrow> d);
              cached =
                (case drd_describeRegionsOutput regionData of
                   None \<Rightarrow> None
                 | Some out \<Rightarrow>
                     if drd_err regionData = None \<and>
                        tSince - drd_lastUpdated regionData < awsRegionsCacheExpirationDuration
                     then Some out
                     else None)
          in (case cached of
                Some out \<Rightarrow> (Inr out, c, awsSession)
              | None \<Rightarrow>
                  let currentRegion = Config_Region awsSession;
                      requesting = awsSession\<lparr>Config_Region := Some ''us-east-1''\<rparr>;
                      response = DescribeRegions requesting;
                      restored = requesting\<lparr>Config_Region := currentRegion\<rparr>
                  in (case response of
                        Inl err \<Rightarrow> (Inl err, c, restored)
                      | Inr describeRegionsOutput \<Rightarrow>
                          (Inr describeRegionsOutput,
                           c(AccessKeyID creds \<mapsto>
                               regionData
                                 \<lparr>drd_describeRegionsOutput := Some describeRegionsOutput,
                                  drd_lastUpdated := tNow\<rparr>),
                           restored))))"

text \<open>
  A call of \<open>GetCachedDescribeRegions\<close> on a cache, with whatever session, clock and
  answer of the API, and the caches that calls can make of the new one.
\<close>
inductive reachableCache :: "regionCache \<Rightarrow> bool" where
  new: "reachableCache NewRegionCache"
| call: "reachableCache c \<Longrightarrow>
         GetCachedDescribeRegions DescribeRegions tSince tNow c awsSession = (res, c', s') \<Longrightarrow>
         reachableCache c'"


section \<open>The instance-type cache\<close>

text \<open>
  The cache behind \<open>GetInstanceType\<close> and \<open>NewInstanceTypesCache\<close> has no source
  file among the sources; every definition of this section is modelled from section 4.1
  of the spec.
\<close>

text \<open>
  Modelled from the spec: one instance type as the listing call reports it (the raw
  fields of the spec's example scenario), the architecture not yet normalized. The
  listing call itself is the SDK's.
\<close>
record RawInstanceType =
  raw_InstanceType :: string
  raw_VCPU :: "64 word"
  raw_MemoryMb :: "64 word"
  raw_GPU :: "64 word"
  raw_Architecture :: string

text \<open>
  Modelled from the spec: the descriptor built of a listed instance type when a bulk
  fetch completes, its architecture normalized.
\<close>
definition describe :: "RawInstanceType \<Rightarrow> InstanceTypeInfo" where
  "describe raw =
     \<lparr>VCPU = raw_VCPU raw, MemoryMb = raw_MemoryMb raw, GPU = raw_GPU raw,
      CPUArchitecture = normalizeArchitecture (raw_Architecture raw)\<rparr>"

text \<open>
  Modelled from the spec: \<open>RegionInstanceTypeSet\<close>, the catalogue of one region and
  the instant of its fetch.
\<close>
record RegionInstanceTypeSet =
  entries :: "string \<rightharpoonup> InstanceTypeInfo"
  fetchedAt :: int

type_synonym instanceTypesCache = "string \<rightharpoonup> RegionInstanceTypeSet"

text \<open>Modelled from the spec: \<open>NewInstanceTypesCache\<close>, the cache with no region.\<close>
definition NewInstanceTypesCache :: instanceTypesCache where
  "NewInstanceTypesCache = Map.empty"

text \<open>Modelled from the spec: the 24 hours after which a region's set is refreshed, in nanoseconds.\<close>
definition instanceTypesTTL :: int where
  "instanceTypesTTL = 24 * (60 * (60 * 1000000000))"

text \<open>
  Modelled from the spec: the bulk fetch. The listing call answers with pages, each with
  a continuation token but the last, and the fetch follows the tokens until the API
  signals completion. The answers to one bulk fetch are the list of its pages in order,
  each the instance types of the page or the error of the call. The fetch accumulates
  the pages into one set and stops at the first error.
\<close>
fun bulkFetch ::
  "(error + RawInstanceType list) list \<Rightarrow> (string \<rightharpoonup> InstanceTypeInfo) \<Rightarrow>
     error + (string \<rightharpoonup> InstanceTypeInfo)" where
  "bulkFetch [] acc = Inr acc"
| "bulkFetch (Inl err # pages) acc = Inl err"
| "bulkFetch (Inr items # pages) acc =
     bulkFetch pages (fold (\<lambda>raw m. m(raw_InstanceType raw \<mapsto> describe raw)) items acc)"

text \<open>
  Modelled from the spec: the descriptor of a name in a set, or the
  unknown-instance-type error when the set does not have the name.
\<close>
definition lookupInstanceType :: "RegionInstanceTypeSet \<Rightarrow> string \<Rightarrow> error + InstanceTypeInfo" where
  "lookupInstanceType s instanceType =
     (case entries s instanceType of
        None \<Rightarrow> Inl (ErrUnknownInstanceType instanceType)
      | Some info \<Rightarrow> Inr info)"

text \<open>
  Modelled from the spec: \<open>GetInstanceType\<close>. On a miss or an entry older than 24
  hours, one bulk fetch of the region, whose result replaces the region's set; a failed
  fetch leaves the cache as it was, and is answered from the previous set when there is
  one. \<open>listing region\<close> is the pages the listing call answers with at this call and
  \<open>now\<close> the instant of the call. The result is the returned pair, the cache after the
  call and the regions for which the call began a bulk fetch.
\<close>
definition GetInstanceType ::
  "(string \<Rightarrow> (error + RawInstanceType list) list) \<Rightarrow> int \<Rightarrow> instanceTypesCache \<Rightarrow>
     string \<Rightarrow> string \<Rightarrow> (error + InstanceTypeInfo) \<times> instanceTypesCache \<times> string list" where
  "GetInstanceType listing now cache region instanceType =
     (let fresh =
            (case cache region of
               None \<Rightarrow> None
             | Some s \<Rightarrow> if instanceTypesTTL < now - fetchedAt s then None else Some s)
      in case fresh of
           Some s \<Rightarrow> (lookupInstanceType s instanceType, cache, [])
         | None \<Rightarrow>
             (case bulkFetch (listing region) Map.empty of
                Inr fetched \<Rightarrow>
                  let s = \<lparr>entries = fetched, fetchedAt = now\<rparr>
                  in (lookupInstanceType s instanceType, cache(region \<mapsto> s), [region])
              | Inl err \<Rightarrow>
                  (case cache region of
                     Some previous \<Rightarrow> (lookupInstanceType previous instanceType, cache, [region])
                   | None \<Rightarrow> (Inl (ErrBulkFetch err), cache, [region]))))"


section \<open>Notions the properties are stated with\<close>




text \<open>What every entry of the region cache holds: an output and no error.\<close>
definition storedOK :: "regionCache \<Rightarrow> bool" where
  "storedOK c \<longleftrightarrow>
     (\<forall>k d. c k = Some d \<longrightarrow> drd_describeRegionsOutput d \<noteq> None \<and> drd_err d = None)"

text \<open>The instance types on the pages of a listing.\<close>
fun listed :: "(error + RawInstanceType list) list \<Rightarrow> RawInstanceType list" where
  "listed [] = []"
| "listed (Inl err # pages) = listed pages"
| "listed (Inr items # pages) = items @ listed pages"


text \<open>
  The items of a labels annotation that are pairs: its comma-separated pieces, white
  space around each trimmed, that have an \<open>=\<close>.
\<close>
definition labelItems :: "string \<Rightarrow> string list" where
  "labelItems s = filter (\<lambda>t. CHR ''='' \<in> set t) (map TrimSpace (Split s CHR '',''))"

text \<open>The key and the value of an item: what stands before its first \<open>=\<close> and what stands after.\<close>
definition pairOf :: "string \<Rightarrow> string \<times> string" where
  "pairOf t =
     (takeWhile (\<lambda>c. c \<noteq> CHR ''='') t, tl (dropWhile (\<lambda>c. c \<noteq> CHR ''='') t))"

text \<open>The \<open>key=value\<close> pairs that a labels annotation contains, in their order.\<close>
definition labelPairs :: "string \<Rightarrow> (string \<times> string) list" where
  "labelPairs s = map pairOf (labelItems s)"

text \<open>Of the pairs with the same key, the one that stands last.\<close>
fun lastPairs :: "(string \<times> string) list \<Rightarrow> (string \<times> string) list" where
  "lastPairs [] = []"
| "lastPairs (p # ps) = (if fst p \<in> fst ` set ps then lastPairs ps else p # lastPairs ps)"

text \<open>The labels annotation of a deployment, empty when it has none.\<close>
definition currentLabels :: "MachineDeployment \<Rightarrow> string" where
  "currentLabels md =
     (case lookupAnnotation (md_Annotations md) labelsKey of None \<Rightarrow> [] | Some s \<Rightarrow> s)"

text \<open>The sorted slice \<open>labels\<close> that the annotation-writing step joins.\<close>
definition writtenLabels :: "MachineDeployment \<Rightarrow> InstanceTypeInfo \<Rightarrow> string list" where
  "writtenLabels md info =
     sortedLabels (updatedLabels (lookupAnnotation (md_Annotations md) labelsKey) info)"

text \<open>The number that a string of decimal digits denotes.\<close>
definition decimalValue :: "string \<Rightarrow> nat" where
  "decimalValue s = fold (\<lambda>c n. 10 * n + (of_char c - 48)) s 0"

text \<open>The integer that a string of decimal digits with an optional minus sign denotes.\<close>
definition intValue :: "string \<Rightarrow> int" where
  "intValue s =
     (case s of
        [] \<Rightarrow> 0
      | c # cs \<Rightarrow> if c = CHR ''-'' then - int (decimalValue cs) else int (decimalValue s))"


section \<open>Example objects\<close>

text \<open>The objects of the repository's tests, with a region annotation added.\<close>
definition exMachineDeployment :: MachineDeployment where
  "exMachineDeployment =
     \<lparr>md_Name = ''test-md'', md_Namespace = ''default'',
      md_Annotations =
        Some [RegionAnnotation \<mapsto> ''us-west-2'', ''existing'' \<mapsto> ''annotation''],
      md_ClusterName = ''test-cluster'',
      md_InfrastructureRef =
        \<lparr>ref_Kind = ''AWSMachineTemplate'', ref_Name = ''test-aws-template'',
         ref_Namespace = ''default''\<rparr>\<rparr>"

definition exClient :: Client where
  "exClient =
     \<lparr>GetAWSMachineTemplate =
        (\<lambda>key. if key = \<lparr>key_Name = ''test-aws-template'', key_Namespace = ''default''\<rparr>
               then Inr \<lparr>amt_Name = ''test-aws-template'', amt_Namespace = ''default'',
                         amt_InstanceType = ''a1.2xlarge''\<rparr>
               else Inl ErrNotFound),
      GetCluster =
        (\<lambda>key. if key = \<lparr>key_Name = ''test-cluster'', key_Namespace = ''default''\<rparr>
               then Inr \<lparr>cl_Name = ''test-cluster'', cl_Namespace = ''default'',
                         cl_InfrastructureRef =
                           Some \<lparr>ref_Kind = ''AWSCluster'', ref_Name = ''test-cluster-aws'',
                                 ref_Namespace = []\<rparr>\<rparr>
               else Inl ErrNotFound),
      GetAWSCluster =
        (\<lambda>key. if key = \<lparr>key_Name = ''test-cluster-aws'', key_Namespace = ''default''\<rparr>
               then Inr \<lparr>ac_Name = ''test-cluster-aws'', ac_Namespace = ''default'',
                         ac_Region = ''us-east-1''\<rparr>
               else Inl ErrNotFound)\<rparr>"


definition exRegions :: DescribeRegionsOutput where
  "exRegions =
     \<lparr>Regions =
        [Some \<lparr>RegionName = Some ''us-east-1'', OptInStatus = Some ''opt-in-not-required''\<rparr>,
         None,
         Some \<lparr>RegionName = Some ''af-south-1'', OptInStatus = Some ''not-opted-in''\<rparr>,
         Some \<lparr>RegionName = Some ''me-south-1'', OptInStatus = Some ''opted-in''\<rparr>]\<rparr>"




definition exSession :: Session where
  "exSession =
     \<lparr>Config_Region = Some ''eu-west-9'',
      Config_Credentials = Inr \<lparr>AccessKeyID = ''AKIDEXAMPLE''\<rparr>,
      Handlers_Build = [''capa-annotator'']\<rparr>"

definition exA1 :: RawInstanceType where
  "exA1 = \<lparr>raw_InstanceType = ''a1.2xlarge'', raw_VCPU = 8, raw_MemoryMb = 16384, raw_GPU = 0,
           raw_Architecture = ''x86_64''\<rparr>"

definition exM6g :: RawInstanceType where
  "exM6g = \<lparr>raw_InstanceType = ''m6g.4xlarge'', raw_VCPU = 16, raw_MemoryMb = 65536, raw_GPU = 0,
            raw_Architecture = ''arm64''\<rparr>"

definition exListing :: "string \<Rightarrow> (error + RawInstanceType list) list" where
  "exListing region = [Inr [exA1], Inr [exM6g]]"

definition exInvalidClient :: Client where
  "exInvalidClient =
     exClient
       \<lparr>GetAWSMachineTemplate :=
          (\<lambda>key. Inr \<lparr>amt_Name = key_Name key, amt_Namespace = key_Namespace key,
                       amt_InstanceType = ''invalid''\<rparr>)\<rparr>"

definition exReconciler :: "unit Reconciler" where
  "exReconciler =
     \<lparr>r_Client = exInvalidClient,
      r_AwsClientBuilder = (\<lambda>c secretName namespace region. Inr ()),
      r_GetInstanceType =
        (\<lambda>awsClient region instanceType.
           fst (GetInstanceType exListing 0 NewInstanceTypesCache region instanceType))\<rparr>"



text \<open>The descriptor of \<open>a1.2xlarge\<close> in the tests, and a deployment with a labels annotation.\<close>
definition exInfo :: InstanceTypeInfo where
  "exInfo = \<lparr>VCPU = 8, MemoryMb = 16384, GPU = 0, CPUArchitecture = ArchitectureAmd64\<rparr>"

definition exLabelled :: "string \<Rightarrow> MachineDeployment" where
  "exLabelled labels =
     exMachineDeployment
       \<lparr>md_Annotations := Some [''existing'' \<mapsto> ''annotation'', labelsKey \<mapsto> labels]\<rparr>"


section \<open>Architecture normalization\<close>

text \<open>
  C6. Architecture normalization is total over strings: it maps \<open>x86_64\<close> to amd64,
  \<open>arm64\<close> to arm64 and every other string, the empty one among them, to amd64; its
  result is one of the two architectures, never an error.
\<close>
theorem normalizeArchitecture_cases:
  "normalizeArchitecture ''x86_64'' = ArchitectureAmd64 \<and>
   normalizeArchitecture ''arm64'' = ArchitectureArm64 \<and>
   normalizeArchitecture [] = ArchitectureAmd64 \<and>
   (architecture \<noteq> ''arm64'' \<longrightarrow> normalizeArchitecture architecture = ArchitectureAmd64)"
  by (simp add: normalizeArchitecture_def)

theorem normalizeArchitecture_cases_witness:
  "''wrong-arch'' \<noteq> ''arm64'' \<and> normalizeArchitecture ''wrong-arch'' = ArchitectureAmd64"
  using normalizeArchitecture_cases [of "''wrong-arch''"] by simp


section \<open>Region resolution\<close>









section \<open>Region validation\<close>



text \<open>An entry without its name makes the comparison dereference \<open>nil\<close>.\<close>
lemma validateRegion_panics:
  "validateRegion \<lparr>Regions = [Some \<lparr>RegionName = None, OptInStatus = None\<rparr>]\<rparr> ''us-east-1'' =
     NilPointerPanic"
  by (simp add: validateRegion_def)




section \<open>Session construction\<close>







section \<open>The region cache\<close>
lemma GetCachedDescribeRegions_cases:
  assumes "GetCachedDescribeRegions DescribeRegions tSince tNow c awsSession = (res, c', s')"
  obtains (kept) "c' = c" and "s' = awsSession"
  | (stored) creds out
    where "Config_Credentials awsSession = Inr creds"
      and "DescribeRegions (awsSession\<lparr>Config_Region := Some ''us-east-1''\<rparr>) = Inr out"
      and "res = Inr out"
      and "c' = c(AccessKeyID creds \<mapsto>
                    (case c (AccessKeyID creds) of None \<Rightarrow> zeroDescribeRegionsData | Some d \<Rightarrow> d)
                      \<lparr>drd_describeRegionsOutput := Some out, drd_lastUpdated := tNow\<rparr>)"
      and "s' = awsSession"
proof (cases "Config_Credentials awsSession")
  case (Inl err)
  with assms have "c' = c" "s' = awsSession"
    by (simp_all add: GetCachedDescribeRegions_def)
  then show ?thesis by (rule kept)
next
  case (Inr creds)
  let ?d = "case c (AccessKeyID creds) of None \<Rightarrow> zeroDescribeRegionsData | Some d \<Rightarrow> d"
  let ?cached = "case drd_describeRegionsOutput ?d of
                   None \<Rightarrow> None
                 | Some out \<Rightarrow>
                     if drd_err ?d = None \<and>
                        tSince - drd_lastUpdated ?d < awsRegionsCacheExpirationDuration
                     then Some out
                     else None"
  show ?thesis
  proof (cases ?cached)
    case (Some out)
    with Inr assms have "c' = c" "s' = awsSession"
      by (simp_all add: GetCachedDescribeRegions_def Let_def)
    then show ?thesis by (rule kept)
  next
    case None
    show ?thesis
    proof (cases "DescribeRegions (awsSession\<lparr>Config_Region := Some ''us-east-1''\<rparr>)")
      case (Inl err)
      with None Inr assms have "c' = c" "s' = awsSession"
        by (simp_all add: GetCachedDescribeRegions_def Let_def)
      then show ?thesis by (rule kept)
    next
      case out: (Inr out)
      with None Inr assms have "res = Inr out" "c' = c(AccessKeyID creds \<mapsto>
            ?d\<lparr>drd_describeRegionsOutput := Some out, drd_lastUpdated := tNow\<rparr>)" "s' = awsSession"
        by (simp_all add: GetCachedDescribeRegions_def Let_def)
      with Inr out show ?thesis by (rule stored)
    qed
  qed
qed

lemma storedOK_step:
  assumes "storedOK c"
    and "GetCachedDescribeRegions DescribeRegions tSince tNow c awsSession = (res, c', s')"
  shows "storedOK c'"
  using assms(2)
proof (cases rule: GetCachedDescribeRegions_cases)
  case kept
  with assms(1) show ?thesis by simp
next
  case (stored creds out)
  with assms(1) show ?thesis
    by (auto simp: storedOK_def zeroDescribeRegionsData_def split: option.splits)
qed

text \<open>Without an entry younger than 30 minutes for its key, a call answers with what the request returns.\<close>
lemma GetCachedDescribeRegions_fetches:
  assumes "Config_Credentials awsSession = Inr creds"
    and "\<forall>d. c (AccessKeyID creds) = Some d \<longrightarrow>
           awsRegionsCacheExpirationDuration \<le> tSince - drd_lastUpdated d"
  shows "fst (GetCachedDescribeRegions DescribeRegions tSince tNow c awsSession) =
           DescribeRegions (awsSession\<lparr>Config_Region := Some ''us-east-1''\<rparr>)"
  using assms
  by (auto simp: GetCachedDescribeRegions_def Let_def zeroDescribeRegionsData_def
           split: option.splits sum.splits)

lemma reachableCache_storedOK: "reachableCache c \<Longrightarrow> storedOK c"
proof (induction rule: reachableCache.induct)
  case new
  show ?case by (simp add: storedOK_def NewRegionCache_def)
next
  case (call c DescribeRegions tSince tNow awsSession res c' s')
  then show ?case using storedOK_step by blast
qed

text \<open>
  C10. Every entry of a region cache that calls of \<open>GetCachedDescribeRegions\<close> have made
  of the new cache holds an output and no error, and a call changes at most the entry of
  its access key, to the output it returns with the instant of the store. A call that
  returns an error leaves the cache as it was; so does, in particular, one whose
  request fails when the cache has no entry younger than 30 minutes for the key: it
  returns the error of the request, and a later call with the same session sends the
  request again and answers with what that returns. The session is after the call as it
  was before it, its region too.
\<close>
theorem regionCache_invariant:
  assumes reach: "reachableCache c"
    and call: "GetCachedDescribeRegions DescribeRegions tSince tNow c awsSession = (res, c', s')"
  shows "(\<forall>k d. c' k = Some d \<longrightarrow> drd_describeRegionsOutput d \<noteq> None \<and> drd_err d = None) \<and>
         (\<forall>k. c' k \<noteq> c k \<longrightarrow>
            (\<exists>out. res = Inr out \<and>
                   c' k = Some \<lparr>drd_err = None, drd_describeRegionsOutput = Some out,
                                drd_lastUpdated = tNow\<rparr>)) \<and>
         (\<forall>err. res = Inl err \<longrightarrow> c' = c) \<and>
         (\<forall>creds err DescribeRegions' tSince' tNow'.
            Config_Credentials awsSession = Inr creds \<longrightarrow>
            (\<forall>d. c (AccessKeyID creds) = Some d \<longrightarrow>
                 awsRegionsCacheExpirationDuration \<le> tSince - drd_lastUpdated d) \<longrightarrow>
            DescribeRegions (awsSession\<lparr>Config_Region := Some ''us-east-1''\<rparr>) = Inl err \<longrightarrow>
            tSince \<le> tSince' \<longrightarrow>
              res = Inl err \<and> c' = c \<and>
              fst (GetCachedDescribeRegions DescribeRegions' tSince' tNow' c' s') =
                DescribeRegions' (awsSession\<lparr>Config_Region := Some ''us-east-1''\<rparr>)) \<and>
         s' = awsSession"
proof (intro conjI allI impI)
  have ok: "storedOK c" using reach by (rule reachableCache_storedOK)
  have ok': "storedOK c'" using ok call by (rule storedOK_step)
  show "s' = awsSession" using call by (cases rule: GetCachedDescribeRegions_cases)
  {
    fix k d assume "c' k = Some d"
    with ok' show "drd_describeRegionsOutput d \<noteq> None" by (auto simp: storedOK_def)
    from \<open>c' k = Some d\<close> ok' show "drd_err d = None" by (auto simp: storedOK_def)
  }
  {
    fix err assume "res = Inl err"
    with call show "c' = c" by (cases rule: GetCachedDescribeRegions_cases) simp_all
  }
  {
    fix k assume diff: "c' k \<noteq> c k"
    from call show "\<exists>out. res = Inr out \<and>
                   c' k = Some \<lparr>drd_err = None, drd_describeRegionsOutput = Some out,
                                drd_lastUpdated = tNow\<rparr>"
    proof (cases rule: GetCachedDescribeRegions_cases)
      case kept
      with diff show ?thesis by simp
    next
      case (stored creds out)
      from stored(4) diff have k: "k = AccessKeyID creds" by (auto split: if_splits)
      have "drd_err (case c (AccessKeyID creds) of None \<Rightarrow> zeroDescribeRegionsData | Some d \<Rightarrow> d) = None"
        using ok by (auto simp: storedOK_def zeroDescribeRegionsData_def split: option.splits)
      with stored(4) k have "c' k = Some \<lparr>drd_err = None, drd_describeRegionsOutput = Some out,
                                drd_lastUpdated = tNow\<rparr>"
        by simp
      with stored(3) show ?thesis by blast
    qed
  }
  {
    fix creds err
    fix DescribeRegions' :: "Session \<Rightarrow> error + DescribeRegionsOutput" and tSince' tNow' :: int
    assume a: "Config_Credentials awsSession = Inr creds"
      "\<forall>d. c (AccessKeyID creds) = Some d \<longrightarrow>
           awsRegionsCacheExpirationDuration \<le> tSince - drd_lastUpdated d"
      "DescribeRegions (awsSession\<lparr>Config_Region := Some ''us-east-1''\<rparr>) = Inl err"
      and later: "tSince \<le> tSince'"
    from a call show r: "res = Inl err"
      by (auto simp: GetCachedDescribeRegions_def Let_def zeroDescribeRegionsData_def
               split: option.splits if_splits)
    from a call show c: "c' = c"
      by (auto simp: GetCachedDescribeRegions_def Let_def zeroDescribeRegionsData_def
               split: option.splits if_splits)
    have s: "s' = awsSession" using call by (cases rule: GetCachedDescribeRegions_cases)
    from a(2) later
    have "\<forall>d. c (AccessKeyID creds) = Some d \<longrightarrow>
            awsRegionsCacheExpirationDuration \<le> tSince' - drd_lastUpdated d"
      by fastforce
    with a(1) show "fst (GetCachedDescribeRegions DescribeRegions' tSince' tNow' c' s') =
                      DescribeRegions' (awsSession\<lparr>Config_Region := Some ''us-east-1''\<rparr>)"
      unfolding c s by (rule GetCachedDescribeRegions_fetches)
  }
qed

theorem regionCache_invariant_witness:
  "reachableCache NewRegionCache \<and>
   GetCachedDescribeRegions (\<lambda>s. Inr exRegions) 7 9 NewRegionCache exSession =
     (Inr exRegions,
      [''AKIDEXAMPLE'' \<mapsto>
         \<lparr>drd_err = None, drd_describeRegionsOutput = Some exRegions, drd_lastUpdated = 9\<rparr>],
      exSession) \<and>
   GetCachedDescribeRegions (\<lambda>s. Inl (ErrExternal ''RequestError'')) 7 9 NewRegionCache exSession =
     (Inl (ErrExternal ''RequestError''), NewRegionCache, exSession)"
proof -
  have r: "reachableCache NewRegionCache" by (rule reachableCache.new)
  obtain res c' s' where
    ok: "GetCachedDescribeRegions (\<lambda>s. Inr exRegions) 7 9 NewRegionCache exSession = (res, c', s')"
    by (cases "GetCachedDescribeRegions (\<lambda>s. Inr exRegions) 7 9 NewRegionCache exSession")
  have res: "res = Inr exRegions" and dom: "c' ''AKIDEXAMPLE'' \<noteq> None"
    and oth: "\<And>k. k \<noteq> ''AKIDEXAMPLE'' \<Longrightarrow> c' k = None"
    using ok
    by (auto simp: GetCachedDescribeRegions_def Let_def exSession_def NewRegionCache_def
                  zeroDescribeRegionsData_def split: if_splits)
  from regionCache_invariant [OF r ok] res dom
  have "c' ''AKIDEXAMPLE'' =
          Some \<lparr>drd_err = None, drd_describeRegionsOutput = Some exRegions, drd_lastUpdated = 9\<rparr>"
    and "s' = exSession"
    by (auto simp: NewRegionCache_def)
  with oth res ok have a: "GetCachedDescribeRegions (\<lambda>s. Inr exRegions) 7 9 NewRegionCache exSession =
     (Inr exRegions,
      [''AKIDEXAMPLE'' \<mapsto>
         \<lparr>drd_err = None, drd_describeRegionsOutput = Some exRegions, drd_lastUpdated = 9\<rparr>],
      exSession)"
    by (auto simp: fun_eq_iff)
  obtain res2 c2 s2 where
    ko: "GetCachedDescribeRegions (\<lambda>s. Inl (ErrExternal ''RequestError'')) 7 9 NewRegionCache exSession =
           (res2, c2, s2)"
    by (cases "GetCachedDescribeRegions (\<lambda>s. Inl (ErrExternal ''RequestError'')) 7 9 NewRegionCache exSession")
  have cr: "Config_Credentials exSession = Inr \<lparr>AccessKeyID = ''AKIDEXAMPLE''\<rparr>"
    by (simp add: exSession_def)
  from regionCache_invariant [OF r ko] cr
  have "res2 = Inl (ErrExternal ''RequestError'')" "c2 = NewRegionCache" "s2 = exSession"
    by (auto simp: NewRegionCache_def)
  with ko have b: "GetCachedDescribeRegions (\<lambda>s. Inl (ErrExternal ''RequestError'')) 7 9 NewRegionCache exSession =
     (Inl (ErrExternal ''RequestError''), NewRegionCache, exSession)"
    by simp
  from r a b show ?thesis by simp
qed



section \<open>The instance-type cache\<close>

lemma fold_add_dom:
  "dom (fold (\<lambda>raw m. m(raw_InstanceType raw \<mapsto> describe raw)) items acc) =
   dom acc \<union> raw_InstanceType ` set items"
  by (induction items arbitrary: acc) auto

lemma bulkFetch_dom:
  "bulkFetch pages acc = Inr fetched \<Longrightarrow>
   dom fetched = dom acc \<union> raw_InstanceType ` set (listed pages)"
proof (induction pages acc rule: bulkFetch.induct)
  case (1 acc)
  then show ?case by simp
next
  case (2 err pages acc)
  then show ?case by simp
next
  case (3 items pages acc)
  then show ?case by (auto simp: fold_add_dom)
qed

text \<open>
  C4. A get for a region whose set is younger than 24 hours begins no bulk fetch and
  leaves the cache as it is. A get on a miss, or for a region whose set is older than 24
  hours, begins exactly one bulk fetch, of that region; when the fetch succeeds, the
  region's set becomes the instance types of all the pages, fetched at the instant of
  the call, the other regions keeping theirs; when it fails, the cache stays as it was.
\<close>
theorem GetInstanceType_ttl:
  "(cache region = Some s \<longrightarrow> now - fetchedAt s < instanceTypesTTL \<longrightarrow>
      GetInstanceType listing now cache region instanceType =
        (lookupInstanceType s instanceType, cache, [])) \<and>
   (cache region = None \<or> (cache region = Some s \<and> instanceTypesTTL < now - fetchedAt s) \<longrightarrow>
      snd (snd (GetInstanceType listing now cache region instanceType)) = [region] \<and>
      (bulkFetch (listing region) Map.empty = Inr fetched \<longrightarrow>
         fst (snd (GetInstanceType listing now cache region instanceType)) =
           cache(region \<mapsto> \<lparr>entries = fetched, fetchedAt = now\<rparr>) \<and>
         dom fetched = raw_InstanceType ` set (listed (listing region))) \<and>
      (bulkFetch (listing region) Map.empty = Inl err \<longrightarrow>
         fst (snd (GetInstanceType listing now cache region instanceType)) = cache))"
proof (intro conjI impI)
  assume "cache region = Some s" "now - fetchedAt s < instanceTypesTTL"
  then show "GetInstanceType listing now cache region instanceType =
        (lookupInstanceType s instanceType, cache, [])"
    by (simp add: GetInstanceType_def)
next
  assume a: "cache region = None \<or> (cache region = Some s \<and> instanceTypesTTL < now - fetchedAt s)"
  then show "snd (snd (GetInstanceType listing now cache region instanceType)) = [region]"
    by (auto simp: GetInstanceType_def Let_def split: sum.splits option.splits)
  {
    assume f: "bulkFetch (listing region) Map.empty = Inr fetched"
    with a show "fst (snd (GetInstanceType listing now cache region instanceType)) =
           cache(region \<mapsto> \<lparr>entries = fetched, fetchedAt = now\<rparr>)"
      by (auto simp: GetInstanceType_def Let_def)
    from bulkFetch_dom [OF f] show "dom fetched = raw_InstanceType ` set (listed (listing region))"
      by simp
  }
  {
    assume "bulkFetch (listing region) Map.empty = Inl err"
    with a show "fst (snd (GetInstanceType listing now cache region instanceType)) = cache"
      by (auto simp: GetInstanceType_def Let_def split: option.splits)
  }
qed

lemma exListing_fetch:
  "bulkFetch (exListing region) Map.empty =
     Inr [''a1.2xlarge'' \<mapsto> describe exA1, ''m6g.4xlarge'' \<mapsto> describe exM6g]"
  by (simp add: exListing_def exA1_def exM6g_def)

theorem GetInstanceType_ttl_witness:
  "NewInstanceTypesCache ''us-east-1'' = None \<and>
   snd (GetInstanceType exListing 5 NewInstanceTypesCache ''us-east-1'' ''a1.2xlarge'') =
     (NewInstanceTypesCache
        (''us-east-1'' \<mapsto>
           \<lparr>entries = [''a1.2xlarge'' \<mapsto> describe exA1, ''m6g.4xlarge'' \<mapsto> describe exM6g],
            fetchedAt = 5\<rparr>),
      [''us-east-1'']) \<and>
   6 - 5 < instanceTypesTTL \<and>
   GetInstanceType exListing 6
     (NewInstanceTypesCache
        (''us-east-1'' \<mapsto>
           \<lparr>entries = [''a1.2xlarge'' \<mapsto> describe exA1, ''m6g.4xlarge'' \<mapsto> describe exM6g],
            fetchedAt = 5\<rparr>))
     ''us-east-1'' ''m6g.4xlarge'' =
     (Inr (describe exM6g),
      NewInstanceTypesCache
        (''us-east-1'' \<mapsto>
           \<lparr>entries = [''a1.2xlarge'' \<mapsto> describe exA1, ''m6g.4xlarge'' \<mapsto> describe exM6g],
            fetchedAt = 5\<rparr>),
      [])"
proof -
  let ?set = "\<lparr>entries = [''a1.2xlarge'' \<mapsto> describe exA1, ''m6g.4xlarge'' \<mapsto> describe exM6g],
              fetchedAt = 5\<rparr>"
  have miss: "NewInstanceTypesCache ''us-east-1'' = None"
    by (simp add: NewInstanceTypesCache_def)
  have young: "(6::int) - 5 < instanceTypesTTL"
    by (simp add: instanceTypesTTL_def)
  from GetInstanceType_ttl
         [of NewInstanceTypesCache "''us-east-1''" undefined 5 exListing "''a1.2xlarge''" _ undefined]
       miss exListing_fetch [of "''us-east-1''"]
  have a: "snd (GetInstanceType exListing 5 NewInstanceTypesCache ''us-east-1'' ''a1.2xlarge'') =
             (NewInstanceTypesCache(''us-east-1'' \<mapsto> ?set), [''us-east-1''])"
    by (simp add: prod_eq_iff)
  from GetInstanceType_ttl
         [of "NewInstanceTypesCache(''us-east-1'' \<mapsto> ?set)" "''us-east-1''" ?set 6 exListing
             "''m6g.4xlarge''" undefined undefined]
       young
  have b: "GetInstanceType exListing 6 (NewInstanceTypesCache(''us-east-1'' \<mapsto> ?set))
             ''us-east-1'' ''m6g.4xlarge'' =
           (Inr (describe exM6g), NewInstanceTypesCache(''us-east-1'' \<mapsto> ?set), [])"
    by (simp add: lookupInstanceType_def)
  from miss a young b show ?thesis by simp
qed



section \<open>Reconciling an unknown instance type\<close>

lemma GetInstanceType_unknown:
  assumes "GetInstanceType listing now cache region instanceType = (res, cache', fetches)"
    and "cache' region = Some s" and "entries s instanceType = None"
  shows "res = Inl (ErrUnknownInstanceType instanceType)"
  using assms
  by (auto simp: GetInstanceType_def Let_def lookupInstanceType_def
           split: sum.splits option.splits if_splits)

lemma reconcile_unknown_instance_type:
  assumes "ResolveAWSMachineTemplate (r_Client r) md = Inr awsMachineTemplate"
    and "ExtractInstanceType (Some awsMachineTemplate) = Inr instanceType"
    and "ResolveRegion (r_Client r) md = Inr region"
    and "r_AwsClientBuilder r (r_Client r) [] (md_Namespace md) region = Inr awsClient"
    and "r_GetInstanceType r awsClient region instanceType = Inl err"
  shows "reconcile r md =
           \<lparr>out_Result = emptyResult, out_err = None, out_machineDeployment = md,
            out_events = failedUpdate\<rparr>"
  using assms by (simp add: reconcile_def)

text \<open>
  C3. When the template, the instance type, the region and the AWS client of a
  deployment resolve, and the name is not in the region's set after the get, then
  \<open>GetInstanceType\<close> returns the unknown-instance-type error, and \<open>reconcile\<close> leaves
  the deployment, its annotations among the rest, as it was and returns the empty
  result with no error, so nothing is requeued.
\<close>
theorem reconcile_unknown_leaves_annotations:
  assumes "ResolveAWSMachineTemplate (r_Client r) md = Inr awsMachineTemplate"
    and "ExtractInstanceType (Some awsMachineTemplate) = Inr instanceType"
    and "ResolveRegion (r_Client r) md = Inr region"
    and "r_AwsClientBuilder r (r_Client r) [] (md_Namespace md) region = Inr awsClient"
    and "GetInstanceType listing now cache region instanceType = (res, cache', fetches)"
    and "cache' region = Some s"
    and "entries s instanceType = None"
    and "r_GetInstanceType r awsClient region instanceType = res"
  shows "res = Inl (ErrUnknownInstanceType instanceType) \<and>
         out_machineDeployment (reconcile r md) = md \<and>
         md_Annotations (out_machineDeployment (reconcile r md)) = md_Annotations md \<and>
         out_err (reconcile r md) = None \<and>
         out_Result (reconcile r md) = \<lparr>Requeue = False, RequeueAfter = 0\<rparr>"
proof -
  have u: "res = Inl (ErrUnknownInstanceType instanceType)"
    using assms(5-7) by (rule GetInstanceType_unknown)
  with assms(8) have "r_GetInstanceType r awsClient region instanceType =
      Inl (ErrUnknownInstanceType instanceType)" by simp
  from reconcile_unknown_instance_type [OF assms(1-4) this] u
  show ?thesis by (simp add: emptyResult_def)
qed


theorem reconcile_unknown_leaves_annotations_witness:
  "ResolveAWSMachineTemplate (r_Client exReconciler) exMachineDeployment =
     Inr \<lparr>amt_Name = ''test-aws-template'', amt_Namespace = ''default'',
          amt_InstanceType = ''invalid''\<rparr> \<and>
   ResolveRegion (r_Client exReconciler) exMachineDeployment = Inr ''us-east-1'' \<and>
   r_GetInstanceType exReconciler () ''us-east-1'' ''invalid'' =
     Inl (ErrUnknownInstanceType ''invalid'') \<and>
   reconcile exReconciler exMachineDeployment =
     \<lparr>out_Result = emptyResult, out_err = None, out_machineDeployment = exMachineDeployment,
      out_events = failedUpdate\<rparr>"
proof -
  let ?tmpl = "\<lparr>amt_Name = ''test-aws-template'', amt_Namespace = ''default'',
               amt_InstanceType = ''invalid''\<rparr>"
  let ?set = "\<lparr>entries = [''a1.2xlarge'' \<mapsto> describe exA1, ''m6g.4xlarge'' \<mapsto> describe exM6g],
              fetchedAt = 0\<rparr>"
  have t: "ResolveAWSMachineTemplate (r_Client exReconciler) exMachineDeployment = Inr ?tmpl"
    by (simp add: ResolveAWSMachineTemplate_def exReconciler_def exInvalidClient_def
                  exMachineDeployment_def)
  have i: "ExtractInstanceType (Some ?tmpl) = Inr ''invalid''"
    by (simp add: ExtractInstanceType_def)
  have g: "ResolveRegion (r_Client exReconciler) exMachineDeployment = Inr ''us-east-1''"
    by (simp add: ResolveRegion_def getRegionFromAWSCluster_def exReconciler_def
                  exInvalidClient_def exClient_def exMachineDeployment_def)
  have b: "r_AwsClientBuilder exReconciler (r_Client exReconciler) []
             (md_Namespace exMachineDeployment) ''us-east-1'' = Inr ()"
    by (simp add: exReconciler_def)
  have c: "GetInstanceType exListing 0 NewInstanceTypesCache ''us-east-1'' ''invalid'' =
             (Inl (ErrUnknownInstanceType ''invalid''),
              NewInstanceTypesCache(''us-east-1'' \<mapsto> ?set), [''us-east-1''])"
    by (simp add: GetInstanceType_def NewInstanceTypesCache_def exListing_fetch
                  lookupInstanceType_def)
  have s: "(NewInstanceTypesCache(''us-east-1'' \<mapsto> ?set)) ''us-east-1'' = Some ?set"
    by simp
  have e: "entries ?set ''invalid'' = None"
    by simp
  have r: "r_GetInstanceType exReconciler () ''us-east-1'' ''invalid'' =
             Inl (ErrUnknownInstanceType ''invalid'')"
    by (simp add: exReconciler_def c)
  from reconcile_unknown_leaves_annotations [OF t i g b c s e r]
  have "out_machineDeployment (reconcile exReconciler exMachineDeployment) = exMachineDeployment"
    "out_err (reconcile exReconciler exMachineDeployment) = None"
    "out_Result (reconcile exReconciler exMachineDeployment) = emptyResult"
    by (simp_all add: emptyResult_def)
  moreover have "out_events (reconcile exReconciler exMachineDeployment) = failedUpdate"
    using t i g b r by (simp add: reconcile_def)
  ultimately have "reconcile exReconciler exMachineDeployment =
     \<lparr>out_Result = emptyResult, out_err = None, out_machineDeployment = exMachineDeployment,
      out_events = failedUpdate\<rparr>"
    by (cases "reconcile exReconciler exMachineDeployment") simp
  with t g r show ?thesis by simp
qed



section \<open>The annotation-writing step\<close>

subsection \<open>Parsing\<close>

lemma Sprintf_pairOf:
  "CHR ''='' \<in> set t \<Longrightarrow> Sprintf_kv (fst (pairOf t)) (snd (pairOf t)) = t"
proof -
  assume "CHR ''='' \<in> set t"
  then have "dropWhile (\<lambda>c. c \<noteq> CHR ''='') t \<noteq> []"
    by (simp add: dropWhile_eq_Nil_conv)
  moreover have "hd (dropWhile (\<lambda>c. c \<noteq> CHR ''='') t) = CHR ''=''"
    using calculation hd_dropWhile [of "\<lambda>c. c \<noteq> CHR ''=''" t] by simp
  ultimately have "dropWhile (\<lambda>c. c \<noteq> CHR ''='') t =
                     CHR ''='' # tl (dropWhile (\<lambda>c. c \<noteq> CHR ''='') t)"
    by (metis list.collapse)
  then have "takeWhile (\<lambda>c. c \<noteq> CHR ''='') t @ CHR ''='' # tl (dropWhile (\<lambda>c. c \<noteq> CHR ''='') t) = t"
    by (metis takeWhile_dropWhile_id)
  then show ?thesis by (simp add: Sprintf_kv_def pairOf_def)
qed

lemma parseLabel_pairOf:
  "parseLabel label m =
     (if CHR ''='' \<in> set (TrimSpace label)
      then AList.update (fst (pairOf (TrimSpace label))) (snd (pairOf (TrimSpace label))) m
      else m)"
  by (simp add: parseLabel_def SplitN2_def pairOf_def Let_def)

lemma fold_parseLabel:
  "fold parseLabel items acc =
   fold (\<lambda>p. AList.update (fst p) (snd p))
     (map pairOf (filter (\<lambda>t. CHR ''='' \<in> set t) (map TrimSpace items))) acc"
  by (induction items arbitrary: acc) (simp_all add: parseLabel_pairOf)

lemma parseLabels_labelPairs:
  "parseLabels s = fold (\<lambda>p. AList.update (fst p) (snd p)) (labelPairs s) []"
  by (simp add: parseLabels_def labelPairs_def labelItems_def fold_parseLabel)

subsection \<open>Writing a key of the map\<close>

lemma mset_update:
  "distinct (map fst al) \<Longrightarrow>
   mset (AList.update k v al) = mset (filter (\<lambda>q. fst q \<noteq> k) al) + {#(k, v)#}"
proof (induction al)
  case Nil
  show ?case by simp
next
  case (Cons a al)
  show ?case
  proof (cases "fst a = k")
    case True
    with Cons.prems have "\<forall>q \<in> set al. fst q \<noteq> k" by (auto simp: image_iff)
    then have "filter (\<lambda>q. fst q \<noteq> k) al = al" by (simp add: filter_id_conv)
    with True show ?thesis by (cases a) simp
  next
    case False
    with Cons show ?thesis by (cases a) simp
  qed
qed

lemma distinct_fold_update:
  "distinct (map fst acc) \<Longrightarrow>
   distinct (map fst (fold (\<lambda>p. AList.update (fst p) (snd p)) ps acc))"
  by (induction ps arbitrary: acc) (simp_all add: distinct_update)

lemma mset_fold_update:
  "distinct (map fst acc) \<Longrightarrow>
   mset (fold (\<lambda>p. AList.update (fst p) (snd p)) ps acc) =
   mset (filter (\<lambda>q. fst q \<notin> fst ` set ps) acc) + mset (lastPairs ps)"
proof (induction ps arbitrary: acc)
  case Nil
  show ?case by simp
next
  case (Cons p ps)
  have d: "distinct (map fst (AList.update (fst p) (snd p) acc))"
    using Cons.prems by (simp add: distinct_update)
  have "mset (fold (\<lambda>p. AList.update (fst p) (snd p)) (p # ps) acc) =
        mset (filter (\<lambda>q. fst q \<notin> fst ` set ps) (AList.update (fst p) (snd p) acc)) +
        mset (lastPairs ps)"
    using Cons.IH [OF d] by simp
  also have "mset (filter (\<lambda>q. fst q \<notin> fst ` set ps) (AList.update (fst p) (snd p) acc)) =
             filter_mset (\<lambda>q. fst q \<notin> fst ` set ps)
               (mset (filter (\<lambda>q. fst q \<noteq> fst p) acc) + {#p#})"
    by (simp only: mset_filter mset_update [OF Cons.prems] prod.collapse)
  also have "\<dots> =
             mset (filter (\<lambda>q. fst q \<notin> fst ` set (p # ps)) acc) +
             (if fst p \<in> fst ` set ps then {#} else {#p#})"
    by (auto simp: filter_filter_mset conj_commute intro!: filter_mset_cong)
  finally show ?case by simp
qed

lemma mset_parseLabels: "mset (parseLabels s) = mset (lastPairs (labelPairs s))"
  using mset_fold_update [of "[]" "labelPairs s"] by (simp add: parseLabels_labelPairs)

lemma distinct_parseLabels: "distinct (map fst (parseLabels s))"
  using distinct_fold_update [of "[]" "labelPairs s"] by (simp add: parseLabels_labelPairs)

lemma lastPairs_distinct: "distinct (map fst ps) \<Longrightarrow> lastPairs ps = ps"
  by (induction ps) auto

lemma TrimSpace_Nil: "TrimSpace [] = []"
  by (simp add: TrimSpace_def TrimLeftSpace.simps TrimRightSpace.simps)

lemma labelPairs_Nil: "labelPairs [] = []"
  by (simp add: labelPairs_def labelItems_def TrimSpace_Nil)

lemma Sprintf_labelPairs:
  "map (\<lambda>p. Sprintf_kv (fst p) (snd p)) (labelPairs s) = labelItems s"
  unfolding labelPairs_def labelItems_def map_map
  by (rule map_idI) (simp add: Sprintf_pairOf)


subsection \<open>Trimming\<close>

lemma spaceRunes_nonempty: "e \<in> set spaceRunes \<Longrightarrow> e \<noteq> []"
  by (auto simp: spaceRunes_def)

lemma leadingSpace_zero_iff:
  "leadingSpace s = 0 \<longleftrightarrow> (\<forall>e \<in> set spaceRunes. take (length e) s \<noteq> e)"
  by (auto simp: leadingSpace_def find_None_iff find_Some_iff spaceRunes_nonempty
           split: option.splits dest: nth_mem)

lemma trailingSpace_zero_iff:
  "trailingSpace s = 0 \<longleftrightarrow> (\<forall>e \<in> set spaceRunes. drop (length s - length e) s \<noteq> e)"
  by (auto simp: trailingSpace_def find_None_iff find_Some_iff spaceRunes_nonempty
           split: option.splits dest: nth_mem)

lemma leadingSpace_le: "leadingSpace s \<le> length s"
proof (cases "find (\<lambda>e. take (length e) s = e) spaceRunes")
  case None
  then show ?thesis by (simp add: leadingSpace_def)
next
  case (Some e)
  then have "take (length e) s = e" by (auto simp: find_Some_iff)
  then have "length (take (length e) s) = length e" by simp
  then have "length e \<le> length s" by simp
  with Some show ?thesis by (simp add: leadingSpace_def)
qed

lemma trailingSpace_le: "trailingSpace s \<le> length s"
proof (cases "find (\<lambda>e. drop (length s - length e) s = e) spaceRunes")
  case None
  then show ?thesis by (simp add: trailingSpace_def)
next
  case (Some e)
  then have "drop (length s - length e) s = e" by (auto simp: find_Some_iff)
  then have "length (drop (length s - length e) s) = length e" by simp
  then have "length e \<le> length s" by simp
  with Some show ?thesis by (simp add: trailingSpace_def)
qed

lemma leadingSpace_TrimLeftSpace: "leadingSpace (TrimLeftSpace s) = 0"
proof (induction s rule: TrimLeftSpace.induct)
  case (1 s)
  show ?case
  proof (cases "leadingSpace s = 0")
    case True
    then show ?thesis by (simp add: TrimLeftSpace.simps [of s])
  next
    case False
    with leadingSpace_le [of s] 1 show ?thesis
      by (simp add: TrimLeftSpace.simps [of s])
  qed
qed

lemma trailingSpace_TrimRightSpace: "trailingSpace (TrimRightSpace s) = 0"
proof (induction s rule: TrimRightSpace.induct)
  case (1 s)
  show ?case
  proof (cases "trailingSpace s = 0")
    case True
    then show ?thesis by (simp add: TrimRightSpace.simps [of s])
  next
    case False
    with trailingSpace_le [of s] 1 show ?thesis
      by (simp add: TrimRightSpace.simps [of s])
  qed
qed

lemma leadingSpace_take: "leadingSpace s = 0 \<Longrightarrow> leadingSpace (take n s) = 0"
proof -
  assume z: "leadingSpace s = 0"
  {
    fix e assume e: "e \<in> set spaceRunes" and t: "take (length e) (take n s) = e"
    from t have "length (take (length e) (take n s)) = length e" by simp
    then have "length e \<le> n" "length e \<le> length s" by simp_all
    with t have "take (length e) s = e" by (simp add: min_def)
    with z e have False by (simp add: leadingSpace_zero_iff)
  }
  then show ?thesis by (auto simp: leadingSpace_zero_iff)
qed

lemma leadingSpace_TrimRightSpace:
  "leadingSpace s = 0 \<Longrightarrow> leadingSpace (TrimRightSpace s) = 0"
proof (induction s rule: TrimRightSpace.induct)
  case (1 s)
  show ?case
  proof (cases "trailingSpace s = 0 \<or> length s < trailingSpace s")
    case True
    with 1 show ?thesis by (simp add: TrimRightSpace.simps [of s])
  next
    case False
    with 1 show ?thesis
      by (simp add: TrimRightSpace.simps [of s] leadingSpace_take)
  qed
qed

lemma TrimLeftSpace_id: "leadingSpace s = 0 \<Longrightarrow> TrimLeftSpace s = s"
  by (simp add: TrimLeftSpace.simps [of s])

lemma TrimRightSpace_id: "trailingSpace s = 0 \<Longrightarrow> TrimRightSpace s = s"
  by (simp add: TrimRightSpace.simps [of s])

lemma TrimSpace_idem: "TrimSpace (TrimSpace s) = TrimSpace s"
  by (simp add: TrimSpace_def TrimLeftSpace_id TrimRightSpace_id
                leadingSpace_TrimRightSpace leadingSpace_TrimLeftSpace
                trailingSpace_TrimRightSpace)

lemma set_TrimLeftSpace: "set (TrimLeftSpace s) \<subseteq> set s"
proof (induction s rule: TrimLeftSpace.induct)
  case (1 s)
  show ?case
  proof (cases "leadingSpace s = 0 \<or> length s < leadingSpace s")
    case True
    then show ?thesis by (simp add: TrimLeftSpace.simps [of s])
  next
    case False
    with 1 have "set (TrimLeftSpace (drop (leadingSpace s) s)) \<subseteq> set (drop (leadingSpace s) s)"
      by simp
    also have "\<dots> \<subseteq> set s" by (rule set_drop_subset)
    finally show ?thesis using False by (simp add: TrimLeftSpace.simps [of s])
  qed
qed

lemma set_TrimRightSpace: "set (TrimRightSpace s) \<subseteq> set s"
proof (induction s rule: TrimRightSpace.induct)
  case (1 s)
  show ?case
  proof (cases "trailingSpace s = 0 \<or> length s < trailingSpace s")
    case True
    then show ?thesis by (simp add: TrimRightSpace.simps [of s])
  next
    case False
    with 1 have "set (TrimRightSpace (take (length s - trailingSpace s) s)) \<subseteq>
                 set (take (length s - trailingSpace s) s)"
      by simp
    also have "\<dots> \<subseteq> set s" by (rule set_take_subset)
    finally show ?thesis using False by (simp add: TrimRightSpace.simps [of s])
  qed
qed

lemma set_TrimSpace: "set (TrimSpace s) \<subseteq> set s"
  unfolding TrimSpace_def using set_TrimRightSpace set_TrimLeftSpace by blast

subsection \<open>Splitting and joining\<close>

lemma Split_nonempty: "Split s sep \<noteq> []"
  by (induction s) (auto split: list.splits)

lemma Split_no_sep: "e \<in> set (Split s sep) \<Longrightarrow> sep \<notin> set e"
proof (induction s arbitrary: e)
  case Nil
  then show ?case by simp
next
  case (Cons c cs)
  show ?case
  proof (cases "c = sep")
    case True
    with Cons show ?thesis by auto
  next
    case False
    obtain p ps where sp: "Split cs sep = p # ps"
      using Split_nonempty [of cs sep] by (cases "Split cs sep") auto
    with False Cons.prems have "e = c # p \<or> e \<in> set ps" by simp
    with sp False Cons.IH show ?thesis by auto
  qed
qed

lemma Split_single: "sep \<notin> set x \<Longrightarrow> Split x sep = [x]"
  by (induction x) auto

lemma Split_append: "sep \<notin> set x \<Longrightarrow> Split (x @ sep # rest) sep = x # Split rest sep"
  by (induction x) auto

lemma Split_Join:
  "es \<noteq> [] \<Longrightarrow> \<forall>e \<in> set es. sep \<notin> set e \<Longrightarrow> Split (Join es [sep]) sep = es"
proof (induction es "[sep]" rule: Join.induct)
  case 1
  then show ?case by simp
next
  case (2 x)
  then show ?case by (simp add: Split_single)
next
  case (3 x y ys)
  then show ?case by (simp add: Split_append)
qed


subsection \<open>The labels that are written\<close>

lemma labelItems_clean:
  "t \<in> set (labelItems s) \<Longrightarrow>
   CHR '','' \<notin> set t \<and> CHR ''='' \<in> set t \<and> TrimSpace t = t"
proof -
  assume "t \<in> set (labelItems s)"
  then obtain l where l: "l \<in> set (Split s CHR '','')" and t: "t = TrimSpace l"
    and eq: "CHR ''='' \<in> set t"
    by (auto simp: labelItems_def)
  from l have "CHR '','' \<notin> set l" by (rule Split_no_sep)
  with t set_TrimSpace [of l] have "CHR '','' \<notin> set t" by blast
  with t eq show ?thesis by (simp add: TrimSpace_idem)
qed

lemma set_lastPairs: "set (lastPairs ps) \<subseteq> set ps"
  by (induction ps) auto

lemma parseLabels_items:
  "p \<in> set (parseLabels s) \<Longrightarrow> \<exists>t \<in> set (labelItems s). p = pairOf t"
proof -
  assume "p \<in> set (parseLabels s)"
  then have "p \<in># mset (parseLabels s)" by simp
  then have "p \<in> set (lastPairs (labelPairs s))" by (simp add: mset_parseLabels)
  with set_lastPairs have "p \<in> set (labelPairs s)" by blast
  then show ?thesis by (auto simp: labelPairs_def)
qed

lemma set_update: "set (AList.update k v al) \<subseteq> insert (k, v) (set al)"
  by (induction al) auto

lemma TrimSpace_amd64: "TrimSpace ''kubernetes.io/arch=amd64'' = ''kubernetes.io/arch=amd64''"
  by code_simp

lemma TrimSpace_arm64: "TrimSpace ''kubernetes.io/arch=arm64'' = ''kubernetes.io/arch=arm64''"
  by code_simp

lemma archLabel_clean:
  "CHR '','' \<notin> set (Sprintf_kv archLabelKey (archString a)) \<and>
   CHR ''='' \<in> set (Sprintf_kv archLabelKey (archString a)) \<and>
   TrimSpace (Sprintf_kv archLabelKey (archString a)) = Sprintf_kv archLabelKey (archString a) \<and>
   pairOf (Sprintf_kv archLabelKey (archString a)) = (archLabelKey, archString a)"
  by (cases a)
     (simp_all add: Sprintf_kv_def archLabelKey_def pairOf_def TrimSpace_amd64 TrimSpace_arm64)

lemma updatedLabels_clean:
  assumes "p \<in> set (updatedLabels existing info)"
  shows "CHR '','' \<notin> set (Sprintf_kv (fst p) (snd p)) \<and>
         CHR ''='' \<in> set (Sprintf_kv (fst p) (snd p)) \<and>
         TrimSpace (Sprintf_kv (fst p) (snd p)) = Sprintf_kv (fst p) (snd p) \<and>
         pairOf (Sprintf_kv (fst p) (snd p)) = p"
proof -
  from assms set_update
  consider "p = (archLabelKey, archString (CPUArchitecture info))"
    | s where "p \<in> set (parseLabels s)"
    by (fastforce simp: updatedLabels_def split: option.splits if_splits)
  then show ?thesis
  proof cases
    case 1
    with archLabel_clean [of "CPUArchitecture info"] show ?thesis by simp
  next
    case 2
    then obtain t where t: "t \<in> set (labelItems s)" and p: "p = pairOf t"
      using parseLabels_items by blast
    from labelItems_clean [OF t] have eq: "CHR ''='' \<in> set t" by simp
    from Sprintf_pairOf [OF eq] p have "Sprintf_kv (fst p) (snd p) = t" by simp
    with labelItems_clean [OF t] p show ?thesis by simp
  qed
qed

lemma distinct_updatedLabels: "distinct (map fst (updatedLabels existing info))"
  by (simp add: updatedLabels_def distinct_update distinct_parseLabels split: option.splits)

lemma updatedLabels_nonempty: "updatedLabels existing info \<noteq> []"
  by (simp add: updatedLabels_def)

lemma mset_updatedLabels:
  "mset (updatedLabels existing info) =
   mset (filter (\<lambda>p. fst p \<noteq> archLabelKey)
           (lastPairs (labelPairs (case existing of None \<Rightarrow> [] | Some s \<Rightarrow> s)))) +
   {#(archLabelKey, archString (CPUArchitecture info))#}"
proof -
  let ?parsed = "case existing of
                   None \<Rightarrow> []
                 | Some existingLabels \<Rightarrow>
                     if existingLabels \<noteq> [] then parseLabels existingLabels else []"
  have d: "distinct (map fst ?parsed)"
    by (simp add: distinct_parseLabels split: option.splits)
  have m: "mset ?parsed =
           mset (lastPairs (labelPairs (case existing of None \<Rightarrow> [] | Some s \<Rightarrow> s)))"
    by (simp add: mset_parseLabels labelPairs_Nil split: option.splits)
  have "mset (updatedLabels existing info) =
        filter_mset (\<lambda>p. fst p \<noteq> archLabelKey) (mset ?parsed) +
        {#(archLabelKey, archString (CPUArchitecture info))#}"
    unfolding updatedLabels_def by (simp only: mset_update [OF d] mset_filter)
  with m show ?thesis by simp
qed

lemma sort_mset_eq: "mset xs = mset ys \<Longrightarrow> sort xs = sort ys"
  by (rule properties_for_sort) simp_all

lemma sortedLabels_mset_eq: "mset es = mset es' \<Longrightarrow> sortedLabels es = sortedLabels es'"
  unfolding sortedLabels_def by (rule sort_mset_eq) simp

lemma Join_nonempty: "es \<noteq> [] \<Longrightarrow> hd es \<noteq> [] \<Longrightarrow> Join es sep \<noteq> []"
  by (induction es sep rule: Join.induct) auto

text \<open>The annotation that is written, read back.\<close>
lemma written_read_back:
  fixes existing info
  defines "m \<equiv> updatedLabels existing info"
  defines "J \<equiv> Join (sortedLabels m) '',''"
  shows "Split J CHR '','' = sortedLabels m"
    and "labelItems J = sortedLabels m"
    and "mset (labelPairs J) = mset m"
    and "J \<noteq> []"
proof -
  have set_es: "set (sortedLabels m) = (\<lambda>p. Sprintf_kv (fst p) (snd p)) ` set m"
    by (auto simp: sortedLabels_def case_prod_unfold)
  have clean: "CHR '','' \<notin> set e \<and> CHR ''='' \<in> set e \<and> TrimSpace e = e"
    if "e \<in> set (sortedLabels m)" for e
  proof -
    from that obtain p where "p \<in> set m" and "e = Sprintf_kv (fst p) (snd p)"
      unfolding set_es by blast
    with updatedLabels_clean [of p existing info] show ?thesis by (simp add: m_def)
  qed
  have ne: "sortedLabels m \<noteq> []"
  proof
    assume "sortedLabels m = []"
    then have "set (sortedLabels m) = {}" by simp
    then have "set m = {}" unfolding set_es by simp
    with updatedLabels_nonempty [of existing info] show False by (simp add: m_def)
  qed
  show split: "Split J CHR '','' = sortedLabels m"
    unfolding J_def using ne clean by (intro Split_Join) auto
  have "map TrimSpace (sortedLabels m) = sortedLabels m"
    by (rule map_idI) (simp add: clean)
  moreover have "filter (\<lambda>t. CHR ''='' \<in> set t) (sortedLabels m) = sortedLabels m"
    by (simp add: filter_id_conv clean)
  ultimately show items: "labelItems J = sortedLabels m"
    by (simp add: labelItems_def split)
  have "mset (labelPairs J) = image_mset pairOf (mset (sortedLabels m))"
    by (simp add: labelPairs_def items)
  also have "\<dots> = image_mset (\<lambda>p. pairOf (Sprintf_kv (fst p) (snd p))) (mset m)"
    by (simp add: sortedLabels_def case_prod_unfold image_mset.compositionality comp_def)
  also have "\<dots> = image_mset (\<lambda>p. p) (mset m)"
    by (rule image_mset_cong) (simp add: updatedLabels_clean [of _ existing info, folded m_def])
  finally show "mset (labelPairs J) = mset m" by simp
  from ne have "hd (sortedLabels m) \<in> set (sortedLabels m)" by simp
  with clean have "hd (sortedLabels m) \<noteq> []" by fastforce
  with ne show "J \<noteq> []" unfolding J_def by (rule Join_nonempty)
qed


subsection \<open>The annotations after the step\<close>

lemma keys_differ:
  "cpuKey \<noteq> labelsKey" "memoryKey \<noteq> labelsKey" "gpuKey \<noteq> labelsKey"
  "cpuKey \<noteq> memoryKey" "cpuKey \<noteq> gpuKey" "memoryKey \<noteq> gpuKey"
  by (simp_all add: cpuKey_def memoryKey_def gpuKey_def labelsKey_def)

lemma setAnnotations_eq:
  "setAnnotations md info =
     md\<lparr>md_Annotations :=
          Some ((case md_Annotations md of None \<Rightarrow> Map.empty | Some m \<Rightarrow> m)
                  (cpuKey \<mapsto> FormatInt (VCPU info),
                   memoryKey \<mapsto> FormatInt (MemoryMb info),
                   gpuKey \<mapsto> FormatInt (GPU info),
                   labelsKey \<mapsto> Join (writtenLabels md info) '',''))\<rparr>"
proof -
  have "((case md_Annotations md of None \<Rightarrow> Map.empty | Some m \<Rightarrow> m)
           (cpuKey \<mapsto> FormatInt (VCPU info),
            memoryKey \<mapsto> FormatInt (MemoryMb info),
            gpuKey \<mapsto> FormatInt (GPU info))) labelsKey =
        lookupAnnotation (md_Annotations md) labelsKey"
    using keys_differ by (simp add: lookupAnnotation_def split: option.splits)
  then show ?thesis
    by (simp add: setAnnotations_def writtenLabels_def Let_def)
qed

lemma labels_after:
  "lookupAnnotation (md_Annotations (setAnnotations md info)) labelsKey =
     Some (Join (writtenLabels md info) '','')"
  by (simp add: setAnnotations_eq lookupAnnotation_def)

lemma currentLabels_after:
  "currentLabels (setAnnotations md info) = Join (writtenLabels md info) '',''"
  by (simp add: currentLabels_def labels_after)

lemma numbers_after:
  "lookupAnnotation (md_Annotations (setAnnotations md info)) cpuKey = Some (FormatInt (VCPU info))"
  "lookupAnnotation (md_Annotations (setAnnotations md info)) memoryKey =
     Some (FormatInt (MemoryMb info))"
  "lookupAnnotation (md_Annotations (setAnnotations md info)) gpuKey = Some (FormatInt (GPU info))"
  using keys_differ by (simp_all add: setAnnotations_eq lookupAnnotation_def)

lemma others_after:
  "k \<notin> {cpuKey, memoryKey, gpuKey, labelsKey} \<Longrightarrow>
   lookupAnnotation (md_Annotations (setAnnotations md info)) k =
   lookupAnnotation (md_Annotations md) k"
  by (simp add: setAnnotations_eq lookupAnnotation_def split: option.splits)

lemma labelPairs_after:
  "mset (labelPairs (currentLabels (setAnnotations md info))) =
   mset (filter (\<lambda>p. fst p \<noteq> archLabelKey) (lastPairs (labelPairs (currentLabels md)))) +
   {#(archLabelKey, archString (CPUArchitecture info))#}"
  unfolding currentLabels_after writtenLabels_def
  by (simp only: written_read_back(3) mset_updatedLabels currentLabels_def)

lemma sorted_writtenLabels: "sorted (writtenLabels md info)"
  by (simp add: writtenLabels_def sortedLabels_def)

lemma writtenLabels_after:
  "writtenLabels (setAnnotations md info) info = writtenLabels md info"
proof -
  let ?m = "updatedLabels (lookupAnnotation (md_Annotations md) labelsKey) info"
  let ?J = "Join (sortedLabels ?m) '',''"
  let ?a = "(archLabelKey, archString (CPUArchitecture info))"
  have pairs: "mset (labelPairs ?J) = mset ?m" by (rule written_read_back(3))
  have "mset (map fst (labelPairs ?J)) = mset (map fst ?m)"
    using pairs by (metis mset_map)
  then have "distinct (map fst (labelPairs ?J))"
    using distinct_updatedLabels [of "lookupAnnotation (md_Annotations md) labelsKey" info]
    by (metis mset_eq_imp_distinct_iff)
  then have last: "lastPairs (labelPairs ?J) = labelPairs ?J" by (rule lastPairs_distinct)
  have m: "mset ?m = filter_mset (\<lambda>p. fst p \<noteq> archLabelKey) (mset ?m) + {#?a#}"
    by (simp add: mset_updatedLabels filter_filter_mset)
  have "mset (updatedLabels (Some ?J) info) =
        filter_mset (\<lambda>p. fst p \<noteq> archLabelKey) (mset (labelPairs ?J)) + {#?a#}"
    by (simp add: mset_updatedLabels last)
  also have "\<dots> = mset ?m" using m pairs by simp
  finally have "sortedLabels (updatedLabels (Some ?J) info) = sortedLabels ?m"
    by (rule sortedLabels_mset_eq)
  then show ?thesis
    by (simp add: writtenLabels_def labels_after)
qed

lemma setAnnotations_twice:
  "setAnnotations (setAnnotations md info) info = setAnnotations md info"
  by (subst setAnnotations_eq [of "setAnnotations md info"])
     (simp add: writtenLabels_after, simp add: setAnnotations_eq)

subsection \<open>Decimal strings\<close>

lemma digit_char: "d < 10 \<Longrightarrow> of_char (''0123456789'' ! d) = 48 + d"
proof -
  assume "d < 10"
  then consider "d = 0" | "d = 1" | "d = 2" | "d = 3" | "d = 4" | "d = 5" | "d = 6"
    | "d = 7" | "d = 8" | "d = 9"
    by (auto simp: less_Suc_eq numeral_eq_Suc)
  then show ?thesis by cases simp_all
qed

lemma decimalValue_snoc:
  "decimalValue (s @ [c]) = 10 * decimalValue s + (of_char c - 48)"
  by (simp add: decimalValue_def)

lemma decimalValue_decimal: "decimalValue (decimal n) = n"
proof (induction n rule: decimal.induct)
  case (1 n)
  show ?case
  proof (cases "n < 10")
    case True
    then show ?thesis
      by (simp add: decimal.simps [of n] decimalValue_def digit_char)
  next
    case False
    with 1 have "decimalValue (decimal (n div 10)) = n div 10" by simp
    with False show ?thesis
      by (simp add: decimal.simps [of n] decimalValue_snoc digit_char)
  qed
qed

lemma decimal_digits: "set (decimal n) \<subseteq> set ''0123456789''"
proof (induction n rule: decimal.induct)
  case (1 n)
  have d: "''0123456789'' ! d \<in> set ''0123456789''" if "d < 10" for d
    using that by (intro nth_mem) simp
  show ?case
  proof (cases "n < 10")
    case True
    with d [of n] show ?thesis by (simp add: decimal.simps [of n])
  next
    case False
    with 1 d [of "n mod 10"] show ?thesis by (simp add: decimal.simps [of n])
  qed
qed

lemma decimal_nonempty: "decimal n \<noteq> []"
  by (simp add: decimal.simps [of n])

lemma intValue_FormatInt: "intValue (FormatInt i) = sint i"
proof (cases "sint i < 0")
  case True
  then show ?thesis by (simp add: FormatInt_def intValue_def decimalValue_decimal)
next
  case False
  obtain c cs where d: "decimal (nat (sint i)) = c # cs"
    using decimal_nonempty [of "nat (sint i)"] by (cases "decimal (nat (sint i))") auto
  with decimal_digits [of "nat (sint i)"] have "c \<noteq> CHR ''-''" by auto
  with False d decimalValue_decimal [of "nat (sint i)"] show ?thesis
    by (simp add: FormatInt_def intValue_def)
qed


subsection \<open>Merge preservation and idempotence\<close>

lemma ex_dup_pairs: "labelPairs ''a=1,a=2'' = [(''a'', ''1''), (''a'', ''2'')]"
  by code_simp

lemma ex_dup_written:
  "Join (sortedLabels (updatedLabels (Some ''a=1,a=2'') exInfo)) '','' =
     ''a=2,kubernetes.io/arch=amd64''"
  by code_simp

lemma ex_dup_pairs_after:
  "labelPairs ''a=2,kubernetes.io/arch=amd64'' = [(''a'', ''2''), (''kubernetes.io/arch'', ''amd64'')]"
  by code_simp

text \<open>
  C1, as stated, fails: of two pairs with the same key, neither of them the architecture
  key, the step keeps only the last.
\<close>
theorem setAnnotations_drops_repeated_key_counterexample:
  "labelPairs (currentLabels (exLabelled ''a=1,a=2'')) = [(''a'', ''1''), (''a'', ''2'')] \<and>
   currentLabels (setAnnotations (exLabelled ''a=1,a=2'') exInfo) =
     ''a=2,kubernetes.io/arch=amd64'' \<and>
   labelPairs (currentLabels (setAnnotations (exLabelled ''a=1,a=2'') exInfo)) =
     [(''a'', ''2''), (''kubernetes.io/arch'', ''amd64'')]"
proof -
  have c: "currentLabels (exLabelled ''a=1,a=2'') = ''a=1,a=2''"
    by (simp add: currentLabels_def exLabelled_def lookupAnnotation_def)
  have l: "lookupAnnotation (md_Annotations (exLabelled ''a=1,a=2'')) labelsKey = Some ''a=1,a=2''"
    by (simp add: exLabelled_def lookupAnnotation_def)
  have a: "currentLabels (setAnnotations (exLabelled ''a=1,a=2'') exInfo) =
             ''a=2,kubernetes.io/arch=amd64''"
    by (simp only: currentLabels_after writtenLabels_def l ex_dup_written)
  from c a ex_dup_pairs ex_dup_pairs_after show ?thesis by simp
qed

lemma Split_after:
  "Split (currentLabels (setAnnotations md info)) CHR '','' = writtenLabels md info"
  unfolding currentLabels_after writtenLabels_def by (rule written_read_back(1))

lemma mset_writtenLabels:
  "mset (writtenLabels md info) =
   mset (map (\<lambda>p. Sprintf_kv (fst p) (snd p))
           (filter (\<lambda>p. fst p \<noteq> archLabelKey) (lastPairs (labelPairs (currentLabels md))))) +
   {#Sprintf_kv archLabelKey (archString (CPUArchitecture info))#}"
proof -
  have "mset (writtenLabels md info) =
        image_mset (\<lambda>p. Sprintf_kv (fst p) (snd p))
          (mset (updatedLabels (lookupAnnotation (md_Annotations md) labelsKey) info))"
    by (simp add: writtenLabels_def sortedLabels_def case_prod_unfold)
  then show ?thesis
    by (simp only: mset_updatedLabels currentLabels_def image_mset_union mset_map
                   image_mset_single fst_conv snd_conv)
qed

text \<open>
  C1, amended. The comma-separated items of the labels annotation after the
  annotation-writing step are the architecture pair with the descriptor's architecture
  and, of the pairs of the annotation before it with another key, for each key the one
  that stood last, each written back byte for byte; so when the keys of the N pairs are
  distinct, all N pairs with another key are there, and nothing else but the
  architecture pair. A pair is a comma-separated item with an \<open>=\<close>, white space
  around the item trimmed. Every annotation key other than the four owned keys keeps its
  value.
\<close>
theorem setAnnotations_keeps_other_labels:
  "Split (currentLabels (setAnnotations md info)) CHR '','' = writtenLabels md info \<and>
   mset (writtenLabels md info) =
     mset (map (\<lambda>p. Sprintf_kv (fst p) (snd p))
             (filter (\<lambda>p. fst p \<noteq> archLabelKey) (lastPairs (labelPairs (currentLabels md))))) +
     {#Sprintf_kv archLabelKey (archString (CPUArchitecture info))#} \<and>
   mset (labelPairs (currentLabels (setAnnotations md info))) =
     mset (filter (\<lambda>p. fst p \<noteq> archLabelKey) (lastPairs (labelPairs (currentLabels md)))) +
     {#(archLabelKey, archString (CPUArchitecture info))#} \<and>
   (distinct (map fst (labelPairs (currentLabels md))) \<longrightarrow>
      mset (labelPairs (currentLabels (setAnnotations md info))) =
        mset (filter (\<lambda>p. fst p \<noteq> archLabelKey) (labelPairs (currentLabels md))) +
        {#(archLabelKey, archString (CPUArchitecture info))#}) \<and>
   map (\<lambda>p. Sprintf_kv (fst p) (snd p)) (labelPairs (currentLabels md)) =
     labelItems (currentLabels md) \<and>
   (\<forall>k. k \<notin> {cpuKey, memoryKey, gpuKey, labelsKey} \<longrightarrow>
        lookupAnnotation (md_Annotations (setAnnotations md info)) k =
        lookupAnnotation (md_Annotations md) k)"
  using Split_after [of md info] mset_writtenLabels [of md info] labelPairs_after [of md info]
    lastPairs_distinct [of "labelPairs (currentLabels md)"]
    Sprintf_labelPairs [of "currentLabels md"] others_after [of _ md info]
  by simp

lemma ex_pairs:
  "labelPairs ''zone=b, tier=web,kubernetes.io/arch=arm64'' =
     [(''zone'', ''b''), (''tier'', ''web''), (''kubernetes.io/arch'', ''arm64'')]"
  by code_simp

theorem setAnnotations_keeps_other_labels_witness:
  "distinct (map fst (labelPairs
      (currentLabels (exLabelled ''zone=b, tier=web,kubernetes.io/arch=arm64'')))) \<and>
   mset (labelPairs (currentLabels
      (setAnnotations (exLabelled ''zone=b, tier=web,kubernetes.io/arch=arm64'') exInfo))) =
     {#(''zone'', ''b''), (''tier'', ''web''), (''kubernetes.io/arch'', ''amd64'')#} \<and>
   ''existing'' \<notin> {cpuKey, memoryKey, gpuKey, labelsKey} \<and>
   lookupAnnotation (md_Annotations
      (setAnnotations (exLabelled ''zone=b, tier=web,kubernetes.io/arch=arm64'') exInfo))
      ''existing'' = Some ''annotation''"
proof -
  let ?md = "exLabelled ''zone=b, tier=web,kubernetes.io/arch=arm64''"
  have c: "currentLabels ?md = ''zone=b, tier=web,kubernetes.io/arch=arm64''"
    by (simp add: currentLabels_def exLabelled_def lookupAnnotation_def)
  have d: "distinct (map fst (labelPairs (currentLabels ?md)))"
    by (simp add: c ex_pairs)
  have k: "''existing'' \<notin> {cpuKey, memoryKey, gpuKey, labelsKey}"
    by (simp add: cpuKey_def memoryKey_def gpuKey_def labelsKey_def)
  have e: "lookupAnnotation (md_Annotations ?md) ''existing'' = Some ''annotation''"
    by (simp add: exLabelled_def lookupAnnotation_def labelsKey_def)
  from setAnnotations_keeps_other_labels [of ?md exInfo] d k e
  show ?thesis
    by (simp add: c ex_pairs archLabelKey_def exInfo_def)
qed

text \<open>
  C2. The annotation-writing step is idempotent and deterministic. Run on its own
  result with the same descriptor it changes nothing. The labels annotation is the
  serialized pairs in sorted order joined with commas, and is the same in whatever order
  the pairs of the map are visited. The three numeric annotations are the descriptor's
  values formatted in base 10: read back as decimal numbers they are those values.
\<close>
theorem setAnnotations_idempotent:
  "setAnnotations (setAnnotations md info) info = setAnnotations md info \<and>
   lookupAnnotation (md_Annotations (setAnnotations md info)) labelsKey =
     Some (Join (writtenLabels md info) '','') \<and>
   sorted (writtenLabels md info) \<and>
   (\<forall>es. mset es = mset (updatedLabels (lookupAnnotation (md_Annotations md) labelsKey) info) \<longrightarrow>
         sortedLabels es = writtenLabels md info) \<and>
   lookupAnnotation (md_Annotations (setAnnotations md info)) cpuKey =
     Some (FormatInt (VCPU info)) \<and>
   lookupAnnotation (md_Annotations (setAnnotations md info)) memoryKey =
     Some (FormatInt (MemoryMb info)) \<and>
   lookupAnnotation (md_Annotations (setAnnotations md info)) gpuKey =
     Some (FormatInt (GPU info)) \<and>
   intValue (FormatInt (VCPU info)) = sint (VCPU info) \<and>
   intValue (FormatInt (MemoryMb info)) = sint (MemoryMb info) \<and>
   intValue (FormatInt (GPU info)) = sint (GPU info)"
proof -
  have "\<forall>es. mset es = mset (updatedLabels (lookupAnnotation (md_Annotations md) labelsKey) info) \<longrightarrow>
         sortedLabels es = writtenLabels md info"
    unfolding writtenLabels_def by (intro allI impI) (rule sortedLabels_mset_eq)
  with setAnnotations_twice [of md info] labels_after [of md info]
    sorted_writtenLabels [of md info] numbers_after [of md info]
  show ?thesis by (simp only: intValue_FormatInt simp_thms)
qed

lemma ex_updated:
  "updatedLabels (Some ''zone=b, tier=web,kubernetes.io/arch=arm64'') exInfo =
     [(''zone'', ''b''), (''tier'', ''web''), (''kubernetes.io/arch'', ''amd64'')]"
  by code_simp

lemma ex_sorted:
  "sortedLabels [(''kubernetes.io/arch'', ''amd64''), (''tier'', ''web''), (''zone'', ''b'')] =
     [''kubernetes.io/arch=amd64'', ''tier=web'', ''zone=b'']"
  by code_simp

theorem setAnnotations_idempotent_witness:
  "mset [(''kubernetes.io/arch'', ''amd64''), (''tier'', ''web''), (''zone'', ''b'')] =
   mset (updatedLabels
          (lookupAnnotation
             (md_Annotations (exLabelled ''zone=b, tier=web,kubernetes.io/arch=arm64'')) labelsKey)
          exInfo) \<and>
   writtenLabels (exLabelled ''zone=b, tier=web,kubernetes.io/arch=arm64'') exInfo =
     [''kubernetes.io/arch=amd64'', ''tier=web'', ''zone=b''] \<and>
   lookupAnnotation (md_Annotations
      (setAnnotations (exLabelled ''zone=b, tier=web,kubernetes.io/arch=arm64'') exInfo))
      labelsKey = Some ''kubernetes.io/arch=amd64,tier=web,zone=b'' \<and>
   lookupAnnotation (md_Annotations
      (setAnnotations (exLabelled ''zone=b, tier=web,kubernetes.io/arch=arm64'') exInfo))
      memoryKey = Some ''16384''"
proof -
  let ?md = "exLabelled ''zone=b, tier=web,kubernetes.io/arch=arm64''"
  have l: "lookupAnnotation (md_Annotations ?md) labelsKey =
             Some ''zone=b, tier=web,kubernetes.io/arch=arm64''"
    by (simp add: exLabelled_def lookupAnnotation_def)
  have m: "mset [(''kubernetes.io/arch'', ''amd64''), (''tier'', ''web''), (''zone'', ''b'')] =
           mset (updatedLabels (lookupAnnotation (md_Annotations ?md) labelsKey) exInfo)"
    by (simp add: l ex_updated)
  have f: "FormatInt (MemoryMb exInfo) = ''16384''"
    by (simp add: exInfo_def FormatInt_def decimal.simps)
  from setAnnotations_idempotent [of ?md exInfo]
  have "\<forall>es. mset es = mset (updatedLabels (lookupAnnotation (md_Annotations ?md) labelsKey) exInfo) \<longrightarrow>
         sortedLabels es = writtenLabels ?md exInfo"
    by (rule conjunct1 [OF conjunct2 [OF conjunct2 [OF conjunct2]]])
  with m have "sortedLabels [(''kubernetes.io/arch'', ''amd64''), (''tier'', ''web''), (''zone'', ''b'')] =
                 writtenLabels ?md exInfo"
    by blast
  then have w: "writtenLabels ?md exInfo = [''kubernetes.io/arch=amd64'', ''tier=web'', ''zone=b'']"
    by (simp only: ex_sorted)
  have j: "Join [''kubernetes.io/arch=amd64'', ''tier=web'', ''zone=b''] '','' =
             ''kubernetes.io/arch=amd64,tier=web,zone=b''"
    by simp
  from setAnnotations_idempotent [of ?md exInfo]
  have "lookupAnnotation (md_Annotations (setAnnotations ?md exInfo)) labelsKey =
          Some (Join (writtenLabels ?md exInfo) '','')"
    and "lookupAnnotation (md_Annotations (setAnnotations ?md exInfo)) memoryKey =
          Some (FormatInt (MemoryMb exInfo))"
    by blast+
  with w f j m show ?thesis by (simp only: simp_thms)
qed


end
